theory Spec2Isabelle
  imports Main "HOL-Library.AList" "HOL-Library.Char_ord" "HOL-Library.List_Lexorder"
begin

section \<open>Python values and errors\<close>

text \<open>
  The library of \<^verbatim>\<open>graph_algorithms.py\<close> is dynamically typed: an edge weight, an edge
  label, a distance and a matrix element can each be a number, one of the two members of
  the enumeration \<^verbatim>\<open>values\<close>, a string or \<^verbatim>\<open>None\<close>. Numbers are modelled as
  unbounded integers (Python's \<^verbatim>\<open>int\<close>); the rounding of \<^verbatim>\<open>float\<close> is not modelled,
  and the default weight \<^verbatim>\<open>0.0\<close> is the number 0.
\<close>

datatype error = ValueError | TypeError | IndexError | KeyError | AttributeError

datatype values_enum = v_neg_inf | v_inf

datatype pyval = Num int | Val values_enum | Str string | PyNone

text \<open>The member values of the enumeration: \<^verbatim>\<open>_neg_inf = 1\<close>, \<^verbatim>\<open>_inf = 2\<close>.\<close>

fun enum_value :: "values_enum \<Rightarrow> int" where
  "enum_value v_neg_inf = 1"
| "enum_value v_inf = 2"

text \<open>
  Exceptions are values: a computation returns \<open>Inl\<close> of the error it raises or \<open>Inr\<close>
  of its result, and \<open>bindE\<close> sequences two computations as statement order does.
\<close>

definition bindE :: "error + 'a \<Rightarrow> ('a \<Rightarrow> error + 'b) \<Rightarrow> error + 'b" where
  "bindE m f = (case m of Inl e \<Rightarrow> Inl e | Inr x \<Rightarrow> f x)"

fun mapE :: "('a \<Rightarrow> error + 'b) \<Rightarrow> 'a list \<Rightarrow> error + 'b list" where
  "mapE f [] = Inr []"
| "mapE f (x # xs) = bindE (f x) (\<lambda>y. bindE (mapE f xs) (\<lambda>ys. Inr (y # ys)))"

fun foldE :: "('a \<Rightarrow> 's \<Rightarrow> error + 's) \<Rightarrow> 'a list \<Rightarrow> 's \<Rightarrow> error + 's" where
  "foldE f [] s = Inr s"
| "foldE f (x # xs) s = bindE (f x s) (foldE f xs)"

lemma bindE_Inr [simp]: "bindE (Inr x) f = f x"
  by (simp add: bindE_def)

lemma bindE_Inl [simp]: "bindE (Inl e) f = Inl e"
  by (simp add: bindE_def)

lemma bindE_Inr_iff: "bindE m f = Inr y \<longleftrightarrow> (\<exists>x. m = Inr x \<and> f x = Inr y)"
  by (cases m) simp_all

lemma bindE_cong [fundef_cong]:
  "m = m' \<Longrightarrow> (\<And>x. m' = Inr x \<Longrightarrow> f x = f' x) \<Longrightarrow> bindE m f = bindE m' f'"
  by (cases m') simp_all

lemma mapE_cong [fundef_cong]:
  "xs = ys \<Longrightarrow> (\<And>x. x \<in> set ys \<Longrightarrow> f x = g x) \<Longrightarrow> mapE f xs = mapE g ys"
  by (induction ys arbitrary: xs) (auto intro: bindE_cong)

lemma mapE_length: "mapE f xs = Inr ys \<Longrightarrow> length ys = length xs"
  by (induction xs arbitrary: ys) (auto simp: bindE_Inr_iff)

lemma mapE_Inr: "(\<And>x. x \<in> set xs \<Longrightarrow> f x = Inr (g x)) \<Longrightarrow> mapE f xs = Inr (map g xs)"
  by (induction xs) auto

text \<open>\<^verbatim>\<open>xs[i]\<close> for a non-negative index: IndexError out of range.\<close>

definition getitem :: "'a list \<Rightarrow> nat \<Rightarrow> error + 'a" where
  "getitem xs i = (if i < length xs then Inr (xs ! i) else Inl IndexError)"

subsection \<open>The methods of \<^verbatim>\<open>values\<close>\<close>

text \<open>
  \<^verbatim>\<open>__gt__\<close> and \<^verbatim>\<open>__lt__\<close> return a truth value for an operand of the same class
  and for a number, and fall off their end (returning \<^verbatim>\<open>None\<close>, here \<open>None\<close>) for any
  other operand.
\<close>

fun values_gt :: "values_enum \<Rightarrow> pyval \<Rightarrow> bool option" where
  "values_gt self (Val other) = Some (enum_value self > enum_value other)"
| "values_gt self (Num n) = Some (self = v_inf)"
| "values_gt self other = None"

fun values_lt :: "values_enum \<Rightarrow> pyval \<Rightarrow> bool option" where
  "values_lt self (Val other) = Some (enum_value self < enum_value other)"
| "values_lt self (Num n) = Some (self = v_neg_inf)"
| "values_lt self other = None"

text \<open>
  \<^verbatim>\<open>__add__\<close>: a number leaves \<open>self\<close>; the same member leaves \<open>self\<close>; in every other
  case the body reaches the expression statement \<^verbatim>\<open>NotImplemented\<close>, which is evaluated
  and dropped, and the method returns \<^verbatim>\<open>None\<close>. \<^verbatim>\<open>__radd__\<close> is \<^verbatim>\<open>self + other\<close>.
\<close>

fun values_add :: "values_enum \<Rightarrow> pyval \<Rightarrow> pyval" where
  "values_add self (Num n) = Val self"
| "values_add self (Val other) =
     (if enum_value self = enum_value other then Val self else PyNone)"
| "values_add self other = PyNone"

definition values_radd :: "values_enum \<Rightarrow> pyval \<Rightarrow> pyval" where
  "values_radd self other = values_add self other"

subsection \<open>Python's binary operators on these values\<close>

text \<open>
  \<^verbatim>\<open>a + b\<close> calls the left operand's \<^verbatim>\<open>__add__\<close>; when the left operand has none or
  it returns \<^verbatim>\<open>NotImplemented\<close>, the right operand's \<^verbatim>\<open>__radd__\<close>; with neither,
  TypeError. The numbers and strings are the built-in ones, \<^verbatim>\<open>None\<close> has no addition.
\<close>

fun py_add :: "pyval \<Rightarrow> pyval \<Rightarrow> error + pyval" where
  "py_add (Num a) (Num b) = Inr (Num (a + b))"
| "py_add (Num a) (Val w) = Inr (values_radd w (Num a))"
| "py_add (Num a) b = Inl TypeError"
| "py_add (Val w) b = Inr (values_add w b)"
| "py_add (Str s) (Str t) = Inr (Str (s @ t))"
| "py_add (Str s) (Val w) = Inr (values_radd w (Str s))"
| "py_add (Str s) b = Inl TypeError"
| "py_add PyNone (Val w) = Inr (values_radd w PyNone)"
| "py_add PyNone b = Inl TypeError"

text \<open>
  The comparisons greater-than and less-than: the left operand's method, then the right operand's
  reflected method (\<^verbatim>\<open>__lt__\<close> for greater-than, \<^verbatim>\<open>__gt__\<close> for less-than), else TypeError.
  The result is a truth value or the \<^verbatim>\<open>None\<close> that a method of \<^verbatim>\<open>values\<close> returned.
\<close>

fun py_gt :: "pyval \<Rightarrow> pyval \<Rightarrow> error + bool option" where
  "py_gt (Num a) (Num b) = Inr (Some (a > b))"
| "py_gt (Num a) (Val w) = Inr (values_lt w (Num a))"
| "py_gt (Num a) b = Inl TypeError"
| "py_gt (Val w) b = Inr (values_gt w b)"
| "py_gt (Str s) (Str t) = Inr (Some (s > t))"
| "py_gt (Str s) (Val w) = Inr (values_lt w (Str s))"
| "py_gt (Str s) b = Inl TypeError"
| "py_gt PyNone (Val w) = Inr (values_lt w PyNone)"
| "py_gt PyNone b = Inl TypeError"

fun py_lt :: "pyval \<Rightarrow> pyval \<Rightarrow> error + bool option" where
  "py_lt (Num a) (Num b) = Inr (Some (a < b))"
| "py_lt (Num a) (Val w) = Inr (values_gt w (Num a))"
| "py_lt (Num a) b = Inl TypeError"
| "py_lt (Val w) b = Inr (values_lt w b)"
| "py_lt (Str s) (Str t) = Inr (Some (s < t))"
| "py_lt (Str s) (Val w) = Inr (values_gt w (Str s))"
| "py_lt (Str s) b = Inl TypeError"
| "py_lt PyNone (Val w) = Inr (values_gt w PyNone)"
| "py_lt PyNone b = Inl TypeError"

text \<open>The truth of a comparison's result in an \<^verbatim>\<open>if\<close>: \<^verbatim>\<open>None\<close> is false.\<close>

fun truthy :: "bool option \<Rightarrow> bool" where
  "truthy (Some b) = b"
| "truthy None = False"

text \<open>\<^verbatim>\<open>min(a, b)\<close> keeps \<open>a\<close> unless \<open>b\<close> compares less than \<open>a\<close>.\<close>

definition py_min :: "pyval \<Rightarrow> pyval \<Rightarrow> error + pyval" where
  "py_min a b = bindE (py_lt b a) (\<lambda>r. Inr (if truthy r then b else a))"

section \<open>Edges\<close>

text \<open>
  \<^verbatim>\<open>Graph._Edge\<close>: the fields \<^verbatim>\<open>_u\<close>, \<^verbatim>\<open>_v\<close>, \<^verbatim>\<open>_label\<close>, \<^verbatim>\<open>_weight\<close>. The
  constructor takes \<^verbatim>\<open>(u, v, weight=0.0, label=None)\<close> in this order.
\<close>

record 'v Edge =
  e_u :: 'v
  e_v :: 'v
  e_label :: pyval
  e_weight :: pyval

definition Edge_init :: "'v \<Rightarrow> 'v \<Rightarrow> pyval \<Rightarrow> pyval \<Rightarrow> 'v Edge" where
  "Edge_init u v weight label = \<lparr>e_u = u, e_v = v, e_label = label, e_weight = weight\<rparr>"

text \<open>The constructor called with the two endpoints only.\<close>

definition Edge_init2 :: "'v \<Rightarrow> 'v \<Rightarrow> 'v Edge" where
  "Edge_init2 u v = Edge_init u v (Num 0) PyNone"

text \<open>
  \<^verbatim>\<open>reverse\<close> calls the constructor with \<^verbatim>\<open>(self._v, self._u, self._label, self._weight)\<close>:
  the label stands where the constructor takes the weight.
\<close>

definition reverse :: "'v Edge \<Rightarrow> 'v Edge" where
  "reverse self = Edge_init (e_v self) (e_u self) (e_label self) (e_weight self)"

text \<open>
  \<^verbatim>\<open>isIncident\<close> compares the endpoints with \<^verbatim>\<open>is\<close>, the identity of objects. The
  values of the model do not carry the identity of the objects they stand for, so it is
  the parameter \<open>same\<close>: \<open>same a b\<close> says that \<open>a\<close> and \<open>b\<close> are one object.
\<close>

definition isIncident :: "('v \<Rightarrow> 'v \<Rightarrow> bool) \<Rightarrow> 'v Edge \<Rightarrow> 'v \<Rightarrow> bool" where
  "isIncident same self x = (same (e_u self) x \<or> same (e_v self) x)"

text \<open>\<^verbatim>\<open>__eq__\<close> (and \<^verbatim>\<open>__hash__\<close>) look at the endpoints only.\<close>

definition edge_eq :: "'v Edge \<Rightarrow> 'v Edge \<Rightarrow> bool" where
  "edge_eq self other = (e_u other = e_u self \<and> e_v other = e_v self)"

text \<open>
  The edge collection \<^verbatim>\<open>self._edges\<close> is a Python set of edges. With the equality above a
  set holds the elements it was given first: \<^verbatim>\<open>add\<close> of an element equal to a stored one
  leaves the set as it is. The model keeps the stored edges as a list in the order of
  their insertion; \<open>set_contains\<close> is \<^verbatim>\<open>e in s\<close>.
\<close>

definition set_contains :: "'v Edge list \<Rightarrow> 'v Edge \<Rightarrow> bool" where
  "set_contains s e = list_ex (\<lambda>x. edge_eq x e) s"

definition set_add :: "'v Edge list \<Rightarrow> 'v Edge \<Rightarrow> 'v Edge list" where
  "set_add s e = (if set_contains s e then s else s @ [e])"

section \<open>Graphs\<close>

record 'v Graph =
  vertices :: "'v set"
  edges :: "'v Edge list"
  directed :: bool

text \<open>
  An edge description handed to the constructor: a tuple of two, three or four components
  \<^verbatim>\<open>(u, v)\<close>, \<^verbatim>\<open>(u, v, weight)\<close>, \<^verbatim>\<open>(u, v, weight, label)\<close>, or an edge object. The
  descriptions come as a list in the order in which the loop visits them. (A longer tuple
  or another object adds no edge, and a shorter tuple raises IndexError; they are not
  modelled.)
\<close>

datatype 'v edge_desc =
  Tup2 'v 'v
| Tup3 'v 'v pyval
| Tup4 'v 'v pyval pyval
| EdgeObj "'v Edge"

fun desc_0 :: "'v edge_desc \<Rightarrow> 'v" where
  "desc_0 (Tup2 a b) = a"
| "desc_0 (Tup3 a b w) = a"
| "desc_0 (Tup4 a b w l) = a"
| "desc_0 (EdgeObj e) = e_u e"

fun desc_1 :: "'v edge_desc \<Rightarrow> 'v" where
  "desc_1 (Tup2 a b) = b"
| "desc_1 (Tup3 a b w) = b"
| "desc_1 (Tup4 a b w l) = b"
| "desc_1 (EdgeObj e) = e_v e"

text \<open>The edges one description adds: the edge, and for an undirected graph its mirror.\<close>

fun add_desc :: "bool \<Rightarrow> 'v Edge list \<Rightarrow> 'v edge_desc \<Rightarrow> 'v Edge list" where
  "add_desc d s (Tup2 a b) =
     (let s1 = set_add s (Edge_init2 a b)
      in if \<not> d then set_add s1 (Edge_init2 b a) else s1)"
| "add_desc d s (Tup3 a b w) =
     (let s1 = set_add s (Edge_init a b w PyNone)
      in if \<not> d then set_add s1 (Edge_init b a w PyNone) else s1)"
| "add_desc d s (Tup4 a b w l) =
     (let s1 = set_add s (Edge_init a b w l)
      in if \<not> d then set_add s1 (Edge_init b a w l) else s1)"
| "add_desc d s (EdgeObj e) =
     (let s1 = set_add s e
      in if \<not> d then set_add s1 (reverse e) else s1)"

fun populate_edges :: "'v Graph \<Rightarrow> 'v edge_desc list \<Rightarrow> error + 'v Graph" where
  "populate_edges self [] = Inr self"
| "populate_edges self (edge # rest) =
     (if desc_0 edge \<notin> vertices self \<or> desc_1 edge \<notin> vertices self then Inl ValueError
      else populate_edges (self\<lparr>edges := add_desc (directed self) (edges self) edge\<rparr>) rest)"

definition Graph_init :: "'v set \<Rightarrow> 'v edge_desc list \<Rightarrow> bool \<Rightarrow> error + 'v Graph" where
  "Graph_init vs es d = populate_edges \<lparr>vertices = vs, edges = [], directed = d\<rparr> es"

text \<open>
  \<^verbatim>\<open>new_edge(u, v, label=None, weight=0.0)\<close>. The guard is
  \<^verbatim>\<open>not u in self._vertices and v in self._vertices\<close>, in which \<^verbatim>\<open>not\<close> binds tighter
  than \<^verbatim>\<open>and\<close>. The constructor is called with \<^verbatim>\<open>(u, v, label, weight)\<close>.
\<close>

definition new_edge :: "'v Graph \<Rightarrow> 'v \<Rightarrow> 'v \<Rightarrow> pyval \<Rightarrow> pyval \<Rightarrow> error + 'v Graph" where
  "new_edge self u v label weight =
     (if u \<notin> vertices self \<and> v \<in> vertices self then Inl ValueError
      else
        let s1 = set_add (edges self) (Edge_init u v label weight);
            s2 = (if \<not> directed self then set_add s1 (Edge_init v u label weight) else s1)
        in Inr (self\<lparr>edges := s2\<rparr>))"

definition are_neighbors :: "'v Graph \<Rightarrow> 'v \<Rightarrow> 'v \<Rightarrow> bool" where
  "are_neighbors self v1 v2 = set_contains (edges self) (Edge_init2 v1 v2)"

text \<open>
  \<^verbatim>\<open>_get_edge\<close>: \<^verbatim>\<open>None\<close> when no edge has these endpoints; else the loop variable after
  the loop, which is the first stored edge with these endpoints, where the loop breaks
  (or the last edge visited, had the loop run to its end).
\<close>

definition get_edge :: "'v Graph \<Rightarrow> 'v \<Rightarrow> 'v \<Rightarrow> 'v Edge option" where
  "get_edge self v1 v2 =
     (if \<not> set_contains (edges self) (Edge_init2 v1 v2) then None
      else (case find (\<lambda>edge. e_u edge = v1 \<and> e_v edge = v2) (edges self) of
              Some edge \<Rightarrow> Some edge
            | None \<Rightarrow> Some (last (edges self))))"

definition edge_weight :: "'v Graph \<Rightarrow> 'v \<Rightarrow> 'v \<Rightarrow> error + pyval" where
  "edge_weight self v1 v2 =
     (if \<not> are_neighbors self v1 v2 then Inr (Val v_inf)
      else (case get_edge self v1 v2 of
              None \<Rightarrow> Inl AttributeError
            | Some edge \<Rightarrow> Inr (e_weight edge)))"

definition neighbors :: "'v Graph \<Rightarrow> 'v \<Rightarrow> 'v set" where
  "neighbors self vertex = Set.filter (\<lambda>x. are_neighbors self vertex x) (vertices self)"

text \<open>
  \<^verbatim>\<open>__add__\<close> with a graph as the right operand: a new graph from the union of the
  vertices, the union of the two edge sets, handed to the constructor as edge objects, and
  the disjunction of the two flags. The union keeps the stored edge of \<open>self\<close> where both
  sets hold an edge for a pair; the constructor visits it in an order \<open>iter\<close> that Python
  does not fix. (The branch for an operand that is not a graph is not modelled.)
\<close>

definition set_union :: "'v Edge list \<Rightarrow> 'v Edge list \<Rightarrow> 'v Edge list" where
  "set_union s t = fold (\<lambda>e acc. set_add acc e) t s"

definition Graph_add ::
  "('v Edge list \<Rightarrow> 'v Edge list) \<Rightarrow> 'v Graph \<Rightarrow> 'v Graph \<Rightarrow> error + 'v Graph" where
  "Graph_add iter self other =
     Graph_init (vertices self \<union> vertices other)
       (map EdgeObj (iter (set_union (edges self) (edges other))))
       (directed self \<or> directed other)"

section \<open>Matrices\<close>

text \<open>
  A matrix is the list of its rows. The constructor checks every row against the first
  one; for an empty list of rows the check looks at no row and the first row is not read.
\<close>

type_synonym 'a matrix = "'a list list"

definition Matrix_init :: "'a list list \<Rightarrow> error + 'a matrix" where
  "Matrix_init m =
     (if \<not> list_all (\<lambda>row. length row = length (m ! 0)) m then Inl ValueError else Inr m)"

definition height :: "'a matrix \<Rightarrow> nat" where
  "height self = length self"

text \<open>\<^verbatim>\<open>width\<close> reads row 0: IndexError for a matrix with no row.\<close>

definition width :: "'a matrix \<Rightarrow> error + nat" where
  "width self = bindE (getitem self 0) (\<lambda>row. Inr (length row))"

text \<open>\<^verbatim>\<open>self[i][j]\<close>.\<close>

definition entry :: "'a matrix \<Rightarrow> nat \<Rightarrow> nat \<Rightarrow> error + 'a" where
  "entry self i j = bindE (getitem self i) (\<lambda>row. getitem row j)"

subsection \<open>Addition\<close>

text \<open>
  The guard of \<^verbatim>\<open>__add__\<close> is
  \<^verbatim>\<open>self.width() != other.width or self.height() != other.height()\<close>. Its first
  comparison has the number \<^verbatim>\<open>self.width()\<close> on the left and, on the right, the
  attribute \<^verbatim>\<open>other.width\<close>, which is not called: a bound method object. Neither class
  compares with the other, so \<^verbatim>\<open>!=\<close> falls back to identity, and two objects of
  different classes are different objects. The second operand is a matrix (the check
  \<^verbatim>\<open>isinstance(other, Matrix)\<close> passes).
\<close>

datatype pyobj = IntObj nat | BoundMethod string

definition py_ne :: "pyobj \<Rightarrow> pyobj \<Rightarrow> bool" where
  "py_ne a b = (a \<noteq> b)"

definition Matrix_add :: "pyval matrix \<Rightarrow> pyval matrix \<Rightarrow> error + pyval matrix" where
  "Matrix_add self other =
     bindE (width self) (\<lambda>w.
       if py_ne (IntObj w) (BoundMethod ''width'') \<or> height self \<noteq> height other
       then Inl ValueError
       else bindE
         (mapE (\<lambda>i. bindE (width self) (\<lambda>w'.
            mapE (\<lambda>j. bindE (entry self i j) (\<lambda>a. bindE (entry other i j) (\<lambda>b. py_add a b)))
              [0..<w'])) [0..<height self])
         Matrix_init)"

subsection \<open>Minor and determinant\<close>

text \<open>
  \<^verbatim>\<open>minor(p, q)\<close>: the guard is
  \<^verbatim>\<open>not 0 <= p <= self.width() - 1 or not 0 <= q <= self.height() - 1\<close>; the width is
  read only when \<^verbatim>\<open>0 <= p\<close>. The result keeps the entries \<^verbatim>\<open>self[j][i]\<close> with
  \<^verbatim>\<open>i != p\<close> and \<^verbatim>\<open>j != q\<close>.
\<close>

definition minor :: "'a matrix \<Rightarrow> int \<Rightarrow> int \<Rightarrow> error + 'a matrix" where
  "minor self p q =
     (if \<not> 0 \<le> p then Inl ValueError
      else bindE (width self) (\<lambda>w.
        if \<not> p \<le> int w - 1 \<or> \<not> (0 \<le> q \<and> q \<le> int (height self) - 1) then Inl ValueError
        else bindE
          (mapE (\<lambda>j. bindE (width self) (\<lambda>w'.
             mapE (\<lambda>i. entry self j i) (filter (\<lambda>i. int i \<noteq> p) [0..<w'])))
             (filter (\<lambda>j. int j \<noteq> q) [0..<height self]))
          Matrix_init))"

text \<open>
  The rows that remain after row \<open>q\<close> is left out are one fewer, which is what lets the
  recursion of the determinant end.
\<close>

lemma length_filter_neq_upt:
  assumes "0 \<le> q" and "q \<le> int h - 1"
  shows "length (filter (\<lambda>j. int j \<noteq> q) [0..<h]) = h - 1"
proof -
  have "length (filter (\<lambda>j. int j \<noteq> q) [0..<h]) = h - length (filter (\<lambda>j. int j = q) [0..<h])"
    using sum_length_filter_compl[of "\<lambda>j. int j = q" "[0..<h]"] by simp
  moreover have "filter (\<lambda>j. int j = q) [0..<h] = [nat q]"
  proof -
    have "filter (\<lambda>j. int j = q) [0..<h] = filter (\<lambda>j. j = nat q) [0..<h]"
      using assms by (intro filter_cong) auto
    also have "\<dots> = [nat q]"
      using assms by (induction h) auto
    finally show ?thesis .
  qed
  ultimately show ?thesis by simp
qed

lemma minor_height: "minor m p q = Inr mi \<Longrightarrow> length mi < length m"
  by (auto simp: minor_def bindE_Inr_iff Matrix_init_def height_def length_filter_neq_upt
      split: if_splits dest!: mapE_length)

text \<open>
  \<^verbatim>\<open>det\<close>, for a matrix of numbers: ValueError unless height and width agree; for height 2
  the value \<^verbatim>\<open>self[0][0] * self[1][1] + (-1) * self[0][1] * self[1][0]\<close>; otherwise the
  sum over \<^verbatim>\<open>i in range(self.width())\<close> of
  \<^verbatim>\<open>(-1)**i * self[0][i] * self.minor(i,0).det()\<close>.
\<close>

function det :: "int matrix \<Rightarrow> error + int" where
  "det self =
     bindE (width self) (\<lambda>w.
       if \<not> height self = w then Inl ValueError
       else if height self = 2 then
         bindE (entry self 0 0) (\<lambda>a. bindE (entry self 1 1) (\<lambda>d.
         bindE (entry self 0 1) (\<lambda>b. bindE (entry self 1 0) (\<lambda>c.
           Inr (a * d + (- 1) * b * c)))))
       else bindE (width self) (\<lambda>w'.
         bindE (mapE (\<lambda>i. bindE (entry self 0 i) (\<lambda>x.
                  bindE (minor self (int i) 0) (\<lambda>mi.
                  bindE (det mi) (\<lambda>d. Inr ((- 1) ^ i * x * d))))) [0..<w'])
           (\<lambda>terms. Inr (sum_list terms))))"
  by pat_completeness auto
termination
  by (relation "measure length") (auto simp: minor_height)

declare det.simps [simp del]

subsection \<open>The determinant as the specification words it\<close>

text \<open>
  The specification's determinant, as a total function on lists of rows: for two rows
  \<open>a * d - b * c\<close>, otherwise the cofactor expansion along the first row, where the minor
  \<open>(p, q)\<close> is the matrix without column \<open>p\<close> and row \<open>q\<close>.
\<close>

definition remove_nth :: "nat \<Rightarrow> 'a list \<Rightarrow> 'a list" where
  "remove_nth i xs = take i xs @ drop (Suc i) xs"

definition minor_spec :: "'a list list \<Rightarrow> nat \<Rightarrow> nat \<Rightarrow> 'a list list" where
  "minor_spec m p q = map (remove_nth p) (remove_nth q m)"

function cofactor_expansion :: "int list list \<Rightarrow> int" where
  "cofactor_expansion m =
     (if length m = 2 then m ! 0 ! 0 * m ! 1 ! 1 - m ! 0 ! 1 * m ! 1 ! 0
      else (\<Sum>i\<leftarrow>[0..<length m]. (- 1) ^ i * m ! 0 ! i * cofactor_expansion (minor_spec m i 0)))"
  by pat_completeness auto
termination
  by (relation "measure length") (auto simp: minor_spec_def remove_nth_def)

declare cofactor_expansion.simps [simp del]

text \<open>A square matrix: as many entries in every row as there are rows.\<close>

definition is_square :: "'a list list \<Rightarrow> bool" where
  "is_square m = list_all (\<lambda>row. length row = length m) m"

section \<open>Removing an edge or a subgraph\<close>

text \<open>
  \<^verbatim>\<open>__sub__\<close> has three branches. For an edge it evaluates \<^verbatim>\<open>self._edges - other\<close>,
  the difference of a set and an edge object: the built-in set takes only a set as the
  right operand of \<^verbatim>\<open>-\<close>, and the edge class has no reflected subtraction, so Python
  raises TypeError. For a graph it checks that the other graph's vertices are among its
  own, removes them and the edges that \<^verbatim>\<open>isIncident\<close> finds incident to them, and returns
  itself. For anything else
  it subtracts the graph with that one vertex and no edge.
\<close>

datatype 'v set_operand = SetOperand "'v Edge list" | EdgeOperand "'v Edge"

fun set_sub :: "'v Edge list \<Rightarrow> 'v set_operand \<Rightarrow> error + 'v Edge list" where
  "set_sub s (SetOperand t) = Inr (filter (\<lambda>x. \<not> set_contains t x) s)"
| "set_sub s (EdgeOperand e) = Inl TypeError"

datatype 'v sub_operand = OpEdge "'v Edge" | OpGraph "'v Graph" | OpVertex 'v

definition remove_subgraph ::
  "('v \<Rightarrow> 'v \<Rightarrow> bool) \<Rightarrow> 'v Graph \<Rightarrow> 'v Graph \<Rightarrow> error + 'v Graph" where
  "remove_subgraph same self other =
     (if \<not> vertices other \<subseteq> vertices self then Inl ValueError
      else Inr (self\<lparr>vertices := vertices self - vertices other,
                     edges := filter (\<lambda>e. \<not> (\<exists>x \<in> vertices other. isIncident same e x))
                                (edges self)\<rparr>))"

fun Graph_sub ::
  "('v \<Rightarrow> 'v \<Rightarrow> bool) \<Rightarrow> 'v Graph \<Rightarrow> 'v sub_operand \<Rightarrow> error + 'v Graph" where
  "Graph_sub same self (OpEdge e) =
     bindE (set_sub (edges self) (EdgeOperand e))
       (\<lambda>es. Graph_init (vertices self) (map EdgeObj es) False)"
| "Graph_sub same self (OpGraph other) = remove_subgraph same self other"
| "Graph_sub same self (OpVertex x) =
     bindE (Graph_init {x} [] False) (\<lambda>other. remove_subgraph same self other)"

section \<open>Shortest paths\<close>

subsection \<open>Dijkstra\<close>

text \<open>
  The dictionary \<^verbatim>\<open>distances\<close> is an association list over the sorted vertices;
  \<^verbatim>\<open>distances[k]\<close> raises KeyError for a missing key. The queue is a
  \<^verbatim>\<open>queue.Queue\<close>: \<^verbatim>\<open>put\<close> appends (its second argument is the \<^verbatim>\<open>block\<close> flag, not
  a priority) and \<^verbatim>\<open>get\<close> takes the oldest element.
\<close>

definition dict_get :: "('k \<times> 'a) list \<Rightarrow> 'k \<Rightarrow> error + 'a" where
  "dict_get d k = (case map_of d k of None \<Rightarrow> Inl KeyError | Some x \<Rightarrow> Inr x)"

text \<open>The body of the loop over the neighbours, on the pair of the dictionary and the queue.\<close>

definition relax ::
  "'v Graph \<Rightarrow> 'v \<Rightarrow> 'v \<Rightarrow> ('v \<times> pyval) list \<times> 'v list
     \<Rightarrow> error + ('v \<times> pyval) list \<times> 'v list" where
  "relax self current neighbor st =
     (case st of (distances, q) \<Rightarrow>
        bindE (dict_get distances current) (\<lambda>dc.
        bindE (edge_weight self current neighbor) (\<lambda>w.
        bindE (py_add dc w) (\<lambda>tentative_dist.
        bindE (dict_get distances neighbor) (\<lambda>dn.
        bindE (py_gt dn tentative_dist) (\<lambda>r.
          if truthy r
          then Inr (AList.update neighbor tentative_dist distances, q @ [neighbor])
          else Inr (distances, q)))))))"

lemma relax_keys:
  assumes "relax self c n (d, q) = Inr (d', q')"
  shows "fst ` set d' = fst ` set d \<and> set q' \<subseteq> set q \<union> fst ` set d"
proof (cases "d' = d \<and> q' = q")
  case True
  then show ?thesis by auto
next
  case False
  with assms obtain t dn where dn: "dict_get d n = Inr dn"
    and upd: "d' = AList.update n t d" "q' = q @ [n]"
    by (auto simp: relax_def bindE_Inr_iff split: if_splits)
  from dn have "n \<in> fst ` set d"
    by (auto simp: dict_get_def split: option.splits dest!: map_of_SomeD intro: rev_image_eqI)
  with upd show ?thesis by (auto simp: AList.dom_update)
qed

lemma foldE_relax_keys:
  "foldE (relax self c) ns (d, q) = Inr (d', q') \<Longrightarrow>
     fst ` set d' = fst ` set d \<and> set q' \<subseteq> set q \<union> fst ` set d"
proof (induction ns arbitrary: d q)
  case Nil
  then show ?case by simp
next
  case (Cons n ns)
  from Cons.prems obtain d1 q1 where s: "relax self c n (d, q) = Inr (d1, q1)"
    and r: "foldE (relax self c) ns (d1, q1) = Inr (d', q')"
    by (auto simp: bindE_Inr_iff)
  from relax_keys[OF s] Cons.IH[OF r] show ?case by auto
qed

text \<open>
  The \<^verbatim>\<open>while\<close> loop. \<^verbatim>\<open>self.neighbors(current)\<close> is a set, and Python does not fix
  the order in which a \<^verbatim>\<open>for\<close> loop visits a set: the order is the parameter \<open>iter\<close>.
  The loop ends for every argument: a vertex is put on the queue only when it is a key of
  the dictionary, and every turn either visits a new vertex or shortens the queue.
\<close>

function dijkstra_loop ::
  "('v set \<Rightarrow> 'v list) \<Rightarrow> 'v Graph \<Rightarrow> 'v list \<Rightarrow> 'v set \<Rightarrow> ('v \<times> pyval) list
     \<Rightarrow> error + ('v \<times> pyval) list" where
  "dijkstra_loop iter self [] visited distances = Inr distances"
| "dijkstra_loop iter self (current # q) visited distances =
     (if current \<in> visited then dijkstra_loop iter self q visited distances
      else (case foldE (relax self current) (iter (neighbors self current)) (distances, q) of
              Inl e \<Rightarrow> Inl e
            | Inr (distances', q') \<Rightarrow>
                dijkstra_loop iter self q' (insert current visited) distances'))"
  by pat_completeness auto
termination
proof (relation "measures
    [\<lambda>(iter, self, q, visited, distances). card ((fst ` set distances \<union> set q) - visited),
     \<lambda>(iter, self, q, visited, distances). length q]", goal_cases)
  case 1
  then show ?case by simp
next
  case (2 iter self current q visited distances)
  have "card ((fst ` set distances \<union> set q) - visited)
        \<le> card ((fst ` set distances \<union> set (current # q)) - visited)"
    by (rule card_mono) auto
  then show ?case by auto
next
  case (3 iter self current q visited distances x2 d' q')
  then have k: "fst ` set d' = fst ` set distances" "set q' \<subseteq> set q \<union> fst ` set distances"
    using foldE_relax_keys[of self current _ distances q d' q'] by auto
  have "(fst ` set d' \<union> set q') - insert current visited
        \<subset> (fst ` set distances \<union> set (current # q)) - visited"
    using k 3(1) by auto
  then have "card ((fst ` set d' \<union> set q') - insert current visited)
        < card ((fst ` set distances \<union> set (current # q)) - visited)"
    by (intro psubset_card_mono) auto
  then show ?case by simp
qed

declare dijkstra_loop.simps [simp del]

definition dijkstra ::
  "('v set \<Rightarrow> 'v list) \<Rightarrow> 'v::linorder Graph \<Rightarrow> 'v \<Rightarrow> error + ('v \<times> pyval) list" where
  "dijkstra iter self vertex =
     (let vs = sorted_list_of_set (vertices self)
      in if vertex \<notin> set vs then Inl ValueError
         else dijkstra_loop iter self [vertex] {}
                (AList.update vertex (Num 0) (map (\<lambda>x. (x, Val v_inf)) vs)))"

subsection \<open>Floyd-Warshall\<close>

text \<open>
  \<^verbatim>\<open>D[i][j] = x\<close> on the matrix of the sorted vertices; every index of the loops is
  below the number of vertices, which is the height and the width of \<open>D\<close>.
\<close>

definition mat_set :: "'a matrix \<Rightarrow> nat \<Rightarrow> nat \<Rightarrow> 'a \<Rightarrow> 'a matrix" where
  "mat_set D i j x = D[i := (D ! i)[j := x]]"

definition fw_init_entry ::
  "'v Graph \<Rightarrow> 'v list \<Rightarrow> nat \<Rightarrow> nat \<Rightarrow> pyval matrix \<Rightarrow> error + pyval matrix" where
  "fw_init_entry self vs i j D =
     (if are_neighbors self (vs ! i) (vs ! j)
      then bindE (edge_weight self (vs ! i) (vs ! j)) (\<lambda>w. Inr (mat_set D i j w))
      else Inr (mat_set D i j (Val v_inf)))"

definition fw_init_row ::
  "'v Graph \<Rightarrow> 'v list \<Rightarrow> nat \<Rightarrow> pyval matrix \<Rightarrow> error + pyval matrix" where
  "fw_init_row self vs i D =
     foldE (fw_init_entry self vs i) (filter (\<lambda>j. j \<noteq> i) [0..<length vs])
       (mat_set D i i (Num 0))"

text \<open>\<^verbatim>\<open>D[i][j] = min(D[i][j], D[i][k] + D[k][j])\<close>, and the two inner loops for one \<open>k\<close>.\<close>

definition fw_relax :: "nat \<Rightarrow> nat \<Rightarrow> nat \<Rightarrow> pyval matrix \<Rightarrow> error + pyval matrix" where
  "fw_relax k i j D =
     bindE (py_add (D ! i ! k) (D ! k ! j)) (\<lambda>s.
     bindE (py_min (D ! i ! j) s) (\<lambda>m. Inr (mat_set D i j m)))"

definition fw_step :: "nat \<Rightarrow> nat \<Rightarrow> pyval matrix \<Rightarrow> error + pyval matrix" where
  "fw_step n k D = foldE (\<lambda>i. foldE (\<lambda>j. fw_relax k i j) [0..<n]) [0..<n] D"

definition floyd_warshall :: "'v::linorder Graph \<Rightarrow> error + pyval matrix" where
  "floyd_warshall self =
     (let vs = sorted_list_of_set (vertices self); n = length vs
      in bindE (Matrix_init (map (\<lambda>v. map (\<lambda>v. Num 0) vs) vs)) (\<lambda>D0.
         bindE (foldE (fw_init_row self vs) [0..<n] D0) (\<lambda>D1.
         foldE (fw_step n) [0..<n] D1)))"

section \<open>Predicates and inputs of the properties\<close>

text \<open>
  The mirror property of an undirected graph's edge collection: every stored edge has a
  stored edge with the endpoints exchanged and the same weight and label.
\<close>

definition mirrored :: "'v Edge list \<Rightarrow> bool" where
  "mirrored s = list_all (\<lambda>e. list_ex (\<lambda>m. e_u m = e_v e \<and> e_v m = e_u e \<and>
      e_weight m = e_weight e \<and> e_label m = e_label e) s) s"

definition mirror_of :: "'v Edge \<Rightarrow> 'v Edge \<Rightarrow> bool" where
  "mirror_of e m =
     (e_u m = e_v e \<and> e_v m = e_u e \<and> e_weight m = e_weight e \<and> e_label m = e_label e)"

text \<open>The edge descriptions that are tuples.\<close>

fun is_tuple :: "'v edge_desc \<Rightarrow> bool" where
  "is_tuple (EdgeObj e) = False"
| "is_tuple d = True"

text \<open>
  Distances that the loop of \<^verbatim>\<open>dijkstra\<close> can hold when the weights are non-negative
  numbers: a non-negative number or the positive infinity. \<open>nonneg_weights\<close> says that
  every stored edge has such a number as its weight.
\<close>

definition ok_dist :: "pyval \<Rightarrow> bool" where
  "ok_dist x = (case x of Num n \<Rightarrow> 0 \<le> n | Val w \<Rightarrow> w = v_inf | _ \<Rightarrow> False)"

definition nonneg_weights :: "'v Graph \<Rightarrow> bool" where
  "nonneg_weights g =
     list_all (\<lambda>e. case e_weight e of Num n \<Rightarrow> 0 \<le> n | _ \<Rightarrow> False) (edges g)"

text \<open>
  The invariant of the loop for the source \<open>src\<close>: the dictionary has the vertices as its
  keys, holds only such distances, and gives the source the distance 0.
\<close>

definition dist_inv :: "'v set \<Rightarrow> 'v \<Rightarrow> ('v \<times> pyval) list \<Rightarrow> bool" where
  "dist_inv V src d \<longleftrightarrow>
     fst ` set d = V \<and> (\<forall>k x. map_of d k = Some x \<longrightarrow> ok_dist x) \<and>
     map_of d src = Some (Num 0)"

text \<open>The graphs of the examples.\<close>

definition two_vertices :: "int Graph" where
  "two_vertices = \<lparr>vertices = {1, 2}, edges = [], directed = True\<rparr>"

definition weighted_pair :: "int Graph" where
  "weighted_pair = \<lparr>vertices = {1, 2},
     edges = [Edge_init 1 2 (Num 5) PyNone, Edge_init 2 1 (Num 5) PyNone], directed = False\<rparr>"

definition no_edges :: "int Graph" where
  "no_edges = \<lparr>vertices = {1, 2}, edges = [], directed = False\<rparr>"

definition one_edge :: "int Graph" where
  "one_edge = \<lparr>vertices = {1, 2}, edges = [Edge_init 1 2 (Num 5) PyNone], directed = True\<rparr>"

definition triangle :: "int Graph" where
  "triangle = \<lparr>vertices = {1, 2, 3},
     edges = [Edge_init 1 2 (Num 1) PyNone, Edge_init 2 1 (Num 1) PyNone,
              Edge_init 2 3 (Num 1) PyNone, Edge_init 3 2 (Num 1) PyNone,
              Edge_init 1 3 (Num 1) PyNone, Edge_init 3 1 (Num 1) PyNone],
     directed = False\<rparr>"

definition path4 :: "int Graph" where
  "path4 = \<lparr>vertices = {1, 2, 3, 4},
     edges = [Edge_init 1 2 (Num 1) PyNone, Edge_init 2 1 (Num 1) PyNone,
              Edge_init 2 3 (Num 1) PyNone, Edge_init 3 2 (Num 1) PyNone,
              Edge_init 3 4 (Num 1) PyNone, Edge_init 4 3 (Num 1) PyNone],
     directed = False\<rparr>"

definition neg_loop :: "int Graph" where
  "neg_loop = \<lparr>vertices = {1}, edges = [Edge_init 1 1 (Num (- 1)) PyNone], directed = True\<rparr>"

text \<open>
  A directed graph in which the cheapest way from 1 to 2 takes three edges
  (\<open>1 \<rightarrow> 3 \<rightarrow> 5 \<rightarrow> 2\<close>, of weight 3) and the direct edge \<open>1 \<rightarrow> 2\<close> has weight 10.
\<close>

definition detour :: "int Graph" where
  "detour = \<lparr>vertices = {1, 2, 3, 4, 5},
     edges = [Edge_init 1 2 (Num 10) PyNone, Edge_init 1 3 (Num 1) PyNone,
              Edge_init 3 5 (Num 1) PyNone, Edge_init 5 2 (Num 1) PyNone,
              Edge_init 2 4 (Num 1) PyNone],
     directed = True\<rparr>"

section \<open>Properties of the extended values\<close>

text \<open>
  Claim C4. Adding a number to an infinity, in either operand order, gives that infinity,
  and an infinity added to itself gives itself. Adding the two different infinities does
  not fail: the method of the source reaches the dropped expression \<^verbatim>\<open>NotImplemented\<close> and
  returns \<^verbatim>\<open>None\<close>, in both operand orders, and no error is raised.
\<close>

theorem values_add_table:
  "py_add (Val w) (Num n) = Inr (Val w) \<and>
   py_add (Num n) (Val w) = Inr (Val w) \<and>
   py_add (Val w) (Val w) = Inr (Val w) \<and>
   py_add (Val v_inf) (Val v_neg_inf) = Inr PyNone \<and>
   py_add (Val v_neg_inf) (Val v_inf) = Inr PyNone"
  by (simp add: values_radd_def)

section \<open>Properties of the matrices\<close>

lemma width_Cons: "width (r # rs) = Inr (length r)"
  by (simp add: width_def getitem_def)

lemma width_Nil: "width [] = Inl IndexError"
  by (simp add: width_def getitem_def)

text \<open>
  Claim C2. The sum of two matrices never returns: for every pair of matrices the guard
  compares a number with a method object, finds them different and raises ValueError (a
  matrix with no row fails earlier, with IndexError, when its width is read). So two
  matrices of the same height and width, such as \<open>[[1]]\<close> and \<open>[[2]]\<close>, are refused as
  incompatible instead of being added.
\<close>

theorem Matrix_add_always_raises:
  "Matrix_add A B = (if A = [] then Inl IndexError else Inl ValueError) \<and>
   Matrix_add [[Num 1]] [[Num 2]] = Inl ValueError"
  by (cases A) (simp_all add: Matrix_add_def width_Cons width_Nil py_ne_def)

subsection \<open>The determinant\<close>

lemma remove_nth_length: "i < length xs \<Longrightarrow> length (remove_nth i xs) = length xs - 1"
  by (auto simp: remove_nth_def)

lemma upt_Suc_shift: "[0..<Suc n] = 0 # map Suc [0..<n]"
  by (simp add: upt_conv_Cons map_Suc_upt del: upt_Suc)

text \<open>Reading a list at every index but \<open>i\<close> leaves the list without its entry \<open>i\<close>.\<close>

lemma map_nth_filter_neq:
  "i < length xs \<Longrightarrow> map ((!) xs) (filter (\<lambda>j. j \<noteq> i) [0..<length xs]) = remove_nth i xs"
proof (induction xs arbitrary: i)
  case Nil
  then show ?case by simp
next
  case (Cons x xs)
  show ?case
  proof (cases i)
    case 0
    have "map ((!) (x # xs)) (filter (\<lambda>j. j \<noteq> 0) (0 # map Suc [0..<length xs]))
        = map ((!) xs) [0..<length xs]"
      by (simp add: filter_map o_def)
    then show ?thesis
      using 0 by (simp add: upt_Suc_shift remove_nth_def map_nth del: upt_Suc)
  next
    case (Suc k)
    then have k: "k < length xs" using Cons.prems by simp
    have "map ((!) (x # xs)) (filter (\<lambda>j. j \<noteq> Suc k) (0 # map Suc [0..<length xs]))
        = x # map ((!) xs) (filter (\<lambda>j. j \<noteq> k) [0..<length xs])"
      by (simp add: filter_map o_def)
    then show ?thesis
      using Suc Cons.IH[OF k] by (simp add: upt_Suc_shift remove_nth_def del: upt_Suc)
  qed
qed

lemma is_square_rows: "is_square m \<Longrightarrow> j < length m \<Longrightarrow> length (m ! j) = length m"
  by (auto simp: is_square_def list_all_length)

lemma width_square: "is_square m \<Longrightarrow> 0 < length m \<Longrightarrow> width m = Inr (length m)"
  using is_square_rows[of m 0] by (simp add: width_def getitem_def)

lemma entry_square:
  "is_square m \<Longrightarrow> i < length m \<Longrightarrow> j < length m \<Longrightarrow> entry m i j = Inr (m ! i ! j)"
  using is_square_rows[of m i] by (simp add: entry_def getitem_def)

lemma minor_spec_rows:
  assumes sq: "is_square m" and i: "i < length m" and r: "row \<in> set (minor_spec m i 0)"
  shows "length row = length m - 1"
proof -
  from r obtain r0 where r0: "r0 \<in> set m" and row: "row = remove_nth i r0"
    by (auto simp: minor_spec_def remove_nth_def dest: in_set_dropD)
  from sq r0 have "length r0 = length m" by (simp add: is_square_def list_all_iff)
  with i row show ?thesis by (simp add: remove_nth_length)
qed

lemma Matrix_init_minor_spec:
  assumes sq: "is_square m" and i: "i < length m"
  shows "Matrix_init (minor_spec m i 0) = Inr (minor_spec m i 0)"
proof (cases "minor_spec m i 0")
  case Nil
  then show ?thesis by (simp add: Matrix_init_def)
next
  case (Cons r rs)
  then have "length (minor_spec m i 0 ! 0) = length m - 1"
    using minor_spec_rows[OF sq i, of r] by simp
  then show ?thesis
    using minor_spec_rows[OF sq i] by (simp add: Matrix_init_def list_all_iff)
qed

text \<open>On a square matrix the minor of the source is the minor of the specification.\<close>

lemma minor_square:
  assumes sq: "is_square m" and i: "i < length m"
  shows "minor m (int i) 0 = Inr (minor_spec m i 0)"
proof -
  let ?n = "length m"
  let ?rows = "filter (\<lambda>j. int j \<noteq> 0) [0..<?n]"
  let ?cols = "filter (\<lambda>k. int k \<noteq> int i) [0..<?n]"
  have pos: "0 < ?n" using i by (cases m) simp_all
  have rows: "?rows = filter (\<lambda>j. j \<noteq> 0) [0..<?n]"
    by simp
  have cols: "?cols = filter (\<lambda>k. k \<noteq> i) [0..<?n]"
    by simp
  have inner: "mapE (\<lambda>k. entry m j k) ?cols = Inr (remove_nth i (m ! j))"
    if "j \<in> set ?rows" for j
  proof -
    from that have j: "j < ?n" by simp
    have "mapE (\<lambda>k. entry m j k) ?cols = Inr (map ((!) (m ! j)) ?cols)"
      by (rule mapE_Inr) (simp add: entry_square[OF sq j])
    also have "map ((!) (m ! j)) ?cols = remove_nth i (m ! j)"
      unfolding cols using map_nth_filter_neq[of i "m ! j"] is_square_rows[OF sq j] i by simp
    finally show ?thesis .
  qed
  have "mapE (\<lambda>j. mapE (\<lambda>k. entry m j k) ?cols) ?rows
      = Inr (map (\<lambda>j. remove_nth i (m ! j)) ?rows)"
    by (rule mapE_Inr) (rule inner)
  also have "map (\<lambda>j. remove_nth i (m ! j)) ?rows = map (remove_nth i) (map ((!) m) ?rows)"
    by simp
  also have "\<dots> = minor_spec m i 0"
    unfolding rows using map_nth_filter_neq[of 0 m] pos by (simp add: minor_spec_def)
  finally have outer:
    "mapE (\<lambda>j. mapE (\<lambda>k. entry m j k) ?cols) ?rows = Inr (minor_spec m i 0)" .
  have guard: "\<not> \<not> (0::int) \<le> int i"
    "\<not> (\<not> int i \<le> int ?n - 1 \<or> \<not> ((0::int) \<le> 0 \<and> (0::int) \<le> int ?n - 1))"
    using i pos by auto
  show ?thesis
    unfolding minor_def height_def
    by (simp only: guard if_False width_square[OF sq pos] bindE_Inr outer
        Matrix_init_minor_spec[OF sq i])
qed

lemma minor_spec_square:
  assumes sq: "is_square m" and i: "i < length m"
  shows "is_square (minor_spec m i 0)" and "length (minor_spec m i 0) = length m - 1"
proof -
  show l: "length (minor_spec m i 0) = length m - 1"
    using i by (simp add: minor_spec_def remove_nth_def)
  have "\<And>row. row \<in> set (minor_spec m i 0) \<Longrightarrow> length row = length m - 1"
    by (rule minor_spec_rows[OF sq i])
  then show "is_square (minor_spec m i 0)"
    using l by (simp add: is_square_def list_all_iff)
qed

lemma det_two_rows:
  assumes sq: "is_square m" and l: "length m = 2"
  shows "det m = Inr (cofactor_expansion m)"
proof -
  have w: "width m = Inr 2" using width_square[OF sq] l by simp
  have e: "entry m 0 0 = Inr (m ! 0 ! 0)" "entry m (Suc 0) (Suc 0) = Inr (m ! Suc 0 ! Suc 0)"
    "entry m 0 (Suc 0) = Inr (m ! 0 ! Suc 0)" "entry m (Suc 0) 0 = Inr (m ! Suc 0 ! 0)"
    using l by (simp_all add: entry_square[OF sq])
  have "det m = Inr (m ! 0 ! 0 * m ! 1 ! 1 + (- 1) * m ! 0 ! 1 * m ! 1 ! 0)"
    by (subst det.simps) (simp add: w e l height_def)
  moreover have "cofactor_expansion m = m ! 0 ! 0 * m ! 1 ! 1 - m ! 0 ! 1 * m ! 1 ! 0"
    by (subst cofactor_expansion.simps) (simp add: l)
  ultimately show ?thesis by simp
qed

text \<open>Induction on the number of rows above two: every minor is square and one row shorter.\<close>

lemma det_refines:
  "is_square m \<Longrightarrow> length m = k + 2 \<Longrightarrow> det m = Inr (cofactor_expansion m)"
proof (induction k arbitrary: m)
  case 0
  then show ?case using det_two_rows[of m] by simp
next
  case (Suc k)
  let ?n = "length m"
  have pos: "0 < ?n" and n2: "?n \<noteq> 2" using Suc.prems(2) by simp_all
  have step: "bindE (entry m 0 i) (\<lambda>x. bindE (minor m (int i) 0)
                (\<lambda>mi. bindE (det mi) (\<lambda>d. Inr ((- 1) ^ i * x * d))))
      = Inr ((- 1) ^ i * m ! 0 ! i * cofactor_expansion (minor_spec m i 0))"
    if "i \<in> set [0..<?n]" for i
  proof -
    from that have i: "i < ?n" by simp
    have d: "det (minor_spec m i 0) = Inr (cofactor_expansion (minor_spec m i 0))"
      using Suc.IH[OF minor_spec_square(1)[OF Suc.prems(1) i]]
        minor_spec_square(2)[OF Suc.prems(1) i] Suc.prems(2) by simp
    show ?thesis
      by (simp add: entry_square[OF Suc.prems(1) pos i] minor_square[OF Suc.prems(1) i] d)
  qed
  have all: "mapE (\<lambda>i. bindE (entry m 0 i) (\<lambda>x. bindE (minor m (int i) 0)
                 (\<lambda>mi. bindE (det mi) (\<lambda>d. Inr ((- 1) ^ i * x * d))))) [0..<?n]
      = Inr (map (\<lambda>i. (- 1) ^ i * m ! 0 ! i * cofactor_expansion (minor_spec m i 0)) [0..<?n])"
    by (rule mapE_Inr) (rule step)
  have "det m
      = Inr (\<Sum>i\<leftarrow>[0..<?n]. (- 1) ^ i * m ! 0 ! i * cofactor_expansion (minor_spec m i 0))"
    using n2 by (subst det.simps)
      (simp add: width_square[OF Suc.prems(1) pos] height_def all)
  also have "\<dots> = Inr (cofactor_expansion m)"
    using n2 by (subst (2) cofactor_expansion.simps) simp
  finally show ?case .
qed

text \<open>
  Claim C7, counterexample. The determinant of the square matrix \<open>[[5]]\<close> is not computed:
  its only minor has no row, and reading the width of that minor raises IndexError.
\<close>

theorem det_single_entry: "is_square [[5::int]] \<and> det [[5]] = Inl IndexError"
  by code_simp

text \<open>
  Claim C7, as amended. For every square matrix with at least two rows the determinant of
  the source returns, and returns the value the specification words: \<open>a * d - b * c\<close> for
  two rows, else the cofactor expansion along the first row over the minors without
  column \<open>i\<close> and row 0. The matrix \<open>[[1,2,3],[4,5,6],[7,8,10]]\<close> has the determinant -3.
\<close>

theorem det_cofactor_expansion:
  "(is_square m \<and> 2 \<le> length m \<longrightarrow> det m = Inr (cofactor_expansion m)) \<and>
   det [[a, b], [c, d]] = Inr (a * d - b * c) \<and>
   det [[1, 2, 3], [4, 5, 6], [7, 8, 10]] = Inr (- 3)"
proof (intro conjI impI)
  assume a: "is_square m \<and> 2 \<le> length m"
  then have "2 \<le> length m"
    by simp
  then have "length m = (length m - 2) + 2"
    by arith
  with a show "det m = Inr (cofactor_expansion m)"
    using det_refines[of m "length m - 2"] by blast
next
  have "is_square [[a, b], [c, d]]"
    by (simp add: is_square_def)
  then have "det [[a, b], [c, d]] = Inr (cofactor_expansion [[a, b], [c, d]])"
    by (rule det_two_rows) simp
  then show "det [[a, b], [c, d]] = Inr (a * d - b * c)"
    by (subst (asm) cofactor_expansion.simps) simp
next
  show "det [[1, 2, 3], [4, 5, 6], [7, 8, 10]] = Inr (- 3)"
    by code_simp
qed

theorem det_cofactor_expansion_witness:
  "is_square [[2, 0, 1], [1, 3, 2], [1, 1, 1::int]] \<and>
   2 \<le> length [[2, 0, 1], [1, 3, 2], [1, 1, 1::int]] \<and>
   det [[2, 0, 1], [1, 3, 2], [1, 1, 1]] = Inr (cofactor_expansion [[2, 0, 1], [1, 3, 2], [1, 1, 1]]) \<and>
   cofactor_expansion [[2, 0, 1], [1, 3, 2], [1, 1, 1]] = 0"
proof -
  have sq: "is_square [[2, 0, 1], [1, 3, 2], [1, 1, 1::int]]"
    by (simp add: is_square_def)
  have v: "cofactor_expansion [[2, 0, 1], [1, 3, 2], [1, 1, 1]] = 0"
    by code_simp
  from det_cofactor_expansion[of "[[2, 0, 1], [1, 3, 2], [1, 1, 1]]"] sq v show ?thesis
    by simp
qed

section \<open>Properties of the edge collection\<close>

text \<open>
  Claim C3. \<^verbatim>\<open>new_edge\<close> raises ValueError exactly when \<open>u\<close> is absent and \<open>v\<close> is
  present, and returns in every other case: also when \<open>v\<close> alone is absent, and when both
  endpoints are. On the graph with the vertices 1 and 2 and no edge, \<^verbatim>\<open>new_edge(1, 3)\<close>
  raises nothing and stores an edge to the vertex 3, which the graph does not have.
\<close>

theorem new_edge_guard:
  "(new_edge g u v label weight = Inl ValueError) = (u \<notin> vertices g \<and> v \<in> vertices g) \<and>
   (\<exists>g'. new_edge g u v label weight = Inr g') = (u \<in> vertices g \<or> v \<notin> vertices g) \<and>
   Graph_init {1, 2} [] True = Inr two_vertices \<and>
   new_edge two_vertices 1 3 PyNone (Num 0)
     = Inr (two_vertices\<lparr>edges := [\<lparr>e_u = 1, e_v = 3, e_label = Num 0, e_weight = PyNone\<rparr>]\<rparr>)"
  by (auto simp: new_edge_def Let_def Graph_init_def two_vertices_def set_add_def set_contains_def
      Edge_init_def)

text \<open>
  Claim C8. Subtracting an edge from a graph raises TypeError for every graph and every
  edge, present or not: no graph is returned, and nothing is removed.
\<close>

theorem Graph_sub_edge_raises: "Graph_sub same g (OpEdge e) = Inl TypeError"
  by simp

text \<open>
  Claim C5. An undirected graph built from an edge object does not have the mirror
  property: the constructor stores \<^verbatim>\<open>edge.reverse()\<close>, whose weight is the edge's label
  and whose label is the edge's weight. From the edge \<open>(1, 2)\<close> of weight 5 and no label
  the graph holds \<open>(1, 2)\<close> with weight 5 and \<open>(2, 1)\<close> with weight \<^verbatim>\<open>None\<close> and label 5.
  The sum of two undirected graphs builds its result from edge objects: the sum of the
  graph of the one undirected edge \<open>(1, 2)\<close> of weight 5 and the graph with no edge loses
  the mirror property too, in either order of visiting the two edges.
\<close>

theorem reverse_breaks_mirror:
  "Graph_init {1, 2::int} [EdgeObj (Edge_init 1 2 (Num 5) PyNone)] False
     = Inr \<lparr>vertices = {1, 2},
            edges = [\<lparr>e_u = 1, e_v = 2, e_label = PyNone, e_weight = Num 5\<rparr>,
                     \<lparr>e_u = 2, e_v = 1, e_label = Num 5, e_weight = PyNone\<rparr>],
            directed = False\<rparr> \<and>
   \<not> mirrored [\<lparr>e_u = 1::int, e_v = 2, e_label = PyNone, e_weight = Num 5\<rparr>,
                \<lparr>e_u = 2, e_v = 1, e_label = Num 5, e_weight = PyNone\<rparr>] \<and>
   Graph_init {1, 2} [Tup3 1 2 (Num 5)] False = Inr weighted_pair \<and>
   Graph_init {1, 2} [] False = Inr no_edges \<and>
   mirrored (edges weighted_pair) \<and>
   Graph_add id weighted_pair no_edges
     = Inr \<lparr>vertices = {1, 2},
            edges = [\<lparr>e_u = 1, e_v = 2, e_label = PyNone, e_weight = Num 5\<rparr>,
                     \<lparr>e_u = 2, e_v = 1, e_label = Num 5, e_weight = PyNone\<rparr>],
            directed = False\<rparr> \<and>
   Graph_add rev weighted_pair no_edges
     = Inr \<lparr>vertices = {1, 2},
            edges = [\<lparr>e_u = 2, e_v = 1, e_label = PyNone, e_weight = Num 5\<rparr>,
                     \<lparr>e_u = 1, e_v = 2, e_label = Num 5, e_weight = PyNone\<rparr>],
            directed = False\<rparr> \<and>
   \<not> mirrored [\<lparr>e_u = 2::int, e_v = 1, e_label = PyNone, e_weight = Num 5\<rparr>,
                \<lparr>e_u = 1, e_v = 2, e_label = Num 5, e_weight = PyNone\<rparr>]"
  by (simp add: Graph_init_def Graph_add_def set_union_def weighted_pair_def no_edges_def
      set_add_def set_contains_def edge_eq_def Edge_init_def reverse_def mirrored_def)

lemma set_contains_iff:
  "set_contains s e \<longleftrightarrow> (\<exists>x\<in>set s. e_u e = e_u x \<and> e_v e = e_v x)"
  by (simp add: set_contains_def list_ex_iff edge_eq_def)

text \<open>
  The mirror property holds where the mirror is built from the same arguments as the edge,
  which is the part of claim C5 that the source keeps.
\<close>

lemma mirrored_iff: "mirrored s \<longleftrightarrow> (\<forall>e\<in>set s. \<exists>m\<in>set s. mirror_of e m)"
  by (simp add: mirrored_def mirror_of_def list_all_iff list_ex_iff)

lemma mirrored_append:
  assumes "mirrored s" and "\<forall>e\<in>set t. \<exists>m\<in>set (s @ t). mirror_of e m"
  shows "mirrored (s @ t)"
  unfolding mirrored_iff
proof
  fix e assume "e \<in> set (s @ t)"
  then consider "e \<in> set s" | "e \<in> set t" by auto
  then show "\<exists>m\<in>set (s @ t). mirror_of e m"
  proof cases
    case 1
    with assms(1) obtain m where "m \<in> set s" "mirror_of e m"
      by (auto simp: mirrored_iff)
    then show ?thesis by auto
  next
    case 2
    with assms(2) show ?thesis by blast
  qed
qed

lemma mirrored_add_pair:
  assumes m: "mirrored s" and ab: "mirror_of a b"
  shows "mirrored (set_add (set_add s a) b)"
proof (cases "set_contains s a")
  case True
  then obtain x where x: "x \<in> set s" "e_u a = e_u x" "e_v a = e_v x"
    by (auto simp: set_contains_iff)
  with m obtain y where y: "y \<in> set s" "mirror_of x y"
    by (auto simp: mirrored_iff)
  with x ab have "set_contains s b"
    by (auto simp: set_contains_iff mirror_of_def intro!: bexI[of _ y])
  with True m show ?thesis by (simp add: set_add_def)
next
  case False
  have nb: "\<not> set_contains s b"
  proof
    assume "set_contains s b"
    then obtain x where x: "x \<in> set s" "e_u b = e_u x" "e_v b = e_v x"
      by (auto simp: set_contains_iff)
    with m obtain y where y: "y \<in> set s" "mirror_of x y"
      by (auto simp: mirrored_iff)
    with x ab have "set_contains s a"
      by (auto simp: set_contains_iff mirror_of_def intro!: bexI[of _ y])
    with False show False by simp
  qed
  have ba: "mirror_of b a" using ab by (simp add: mirror_of_def)
  have s1: "set_add s a = s @ [a]" using False by (simp add: set_add_def)
  show ?thesis
  proof (cases "set_contains (s @ [a]) b")
    case True
    with nb have same: "e_u b = e_u a" "e_v b = e_v a"
      by (auto simp: set_contains_iff)
    with ab have "mirror_of a a" unfolding mirror_of_def by metis
    then have "mirrored (s @ [a])"
      by (intro mirrored_append[OF m]) simp
    with True s1 show ?thesis by (simp add: set_add_def)
  next
    case c: False
    have "mirrored (s @ [a, b])"
      using ab ba by (intro mirrored_append[OF m]) auto
    with c s1 show ?thesis by (simp add: set_add_def)
  qed
qed

lemma mirrored_add_desc:
  "mirrored s \<Longrightarrow> is_tuple d \<Longrightarrow> mirrored (add_desc False s d)"
  by (cases d) (auto simp: Let_def Edge_init2_def Edge_init_def mirror_of_def intro!: mirrored_add_pair)

lemma mirrored_populate:
  "mirrored (edges g) \<Longrightarrow> \<not> directed g \<Longrightarrow> list_all is_tuple ds \<Longrightarrow>
     populate_edges g ds = Inr g' \<Longrightarrow> mirrored (edges g')"
proof (induction ds arbitrary: g)
  case Nil
  then show ?case by simp
next
  case (Cons d ds)
  let ?g1 = "g\<lparr>edges := add_desc (directed g) (edges g) d\<rparr>"
  from Cons.prems have p: "populate_edges ?g1 ds = Inr g'"
    by (auto split: if_splits)
  have "mirrored (edges ?g1)"
    using Cons.prems by (simp add: mirrored_add_desc)
  from Cons.IH[OF this _ _ p] Cons.prems show ?case by simp
qed

text \<open>
  Property X1. An undirected graph constructed from tuples only has the mirror property,
  and \<^verbatim>\<open>new_edge\<close> on an undirected graph that has it keeps it.
\<close>

theorem mirror_of_tuples_and_new_edge:
  "(list_all is_tuple ds \<and> Graph_init V ds False = Inr g \<longrightarrow> mirrored (edges g)) \<and>
   (mirrored (edges g0) \<and> \<not> directed g0 \<and> new_edge g0 u v label weight = Inr g1
      \<longrightarrow> mirrored (edges g1))"
proof (intro conjI impI)
  assume "list_all is_tuple ds \<and> Graph_init V ds False = Inr g"
  then show "mirrored (edges g)"
    using mirrored_populate[of "\<lparr>vertices = V, edges = [], directed = False\<rparr>" ds g]
    by (simp add: Graph_init_def mirrored_def)
next
  assume a: "mirrored (edges g0) \<and> \<not> directed g0 \<and> new_edge g0 u v label weight = Inr g1"
  then have "edges g1 = set_add (set_add (edges g0) (Edge_init u v label weight)) (Edge_init v u label weight)"
    by (auto simp: new_edge_def Let_def split: if_splits)
  moreover have "mirror_of (Edge_init u v label weight) (Edge_init v u label weight)"
    by (simp add: mirror_of_def Edge_init_def)
  ultimately show "mirrored (edges g1)"
    using a mirrored_add_pair by metis
qed

theorem mirror_of_tuples_and_new_edge_witness:
  "list_all is_tuple [Tup3 1 2 (Num 5)] \<and>
   Graph_init {1, 2} [Tup3 1 2 (Num 5)] False = Inr weighted_pair \<and>
   mirrored (edges weighted_pair) \<and> \<not> directed weighted_pair \<and>
   new_edge weighted_pair 2 2 (Str ''loop'') (Num 3)
     = Inr (weighted_pair\<lparr>edges := edges weighted_pair @ [Edge_init 2 2 (Str ''loop'') (Num 3)]\<rparr>) \<and>
   mirrored (edges weighted_pair @ [Edge_init 2 2 (Str ''loop'') (Num 3)])"
proof -
  have a: "list_all is_tuple [Tup3 (1::int) 2 (Num 5)]"
    by simp
  have b: "Graph_init {1, 2} [Tup3 1 2 (Num 5)] False = Inr weighted_pair"
    by (simp add: Graph_init_def weighted_pair_def set_add_def set_contains_def edge_eq_def
        Edge_init_def)
  have c: "\<not> directed weighted_pair"
    by (simp add: weighted_pair_def)
  have d: "new_edge weighted_pair 2 2 (Str ''loop'') (Num 3)
     = Inr (weighted_pair\<lparr>edges := edges weighted_pair @ [Edge_init 2 2 (Str ''loop'') (Num 3)]\<rparr>)"
    by (simp add: new_edge_def weighted_pair_def set_add_def set_contains_def edge_eq_def
        Edge_init_def)
  note inst = mirror_of_tuples_and_new_edge[where ds = "[Tup3 1 2 (Num 5)]" and V = "{1, 2}"
      and g = weighted_pair and ?g0.0 = weighted_pair and u = 2 and v = 2
      and label = "Str ''loop''" and weight = "Num 3"
      and ?g1.0 = "weighted_pair\<lparr>edges := edges weighted_pair @ [Edge_init 2 2 (Str ''loop'') (Num 3)]\<rparr>"]
  from inst a b have m: "mirrored (edges weighted_pair)"
    by blast
  from inst m c d
  have "mirrored (edges (weighted_pair\<lparr>edges := edges weighted_pair @ [Edge_init 2 2 (Str ''loop'') (Num 3)]\<rparr>))"
    by blast
  with a b m c d show ?thesis
    by simp
qed

text \<open>
  Claim C6, counterexample. The graph built from the one edge \<open>(1, 2)\<close> of weight 5 already
  holds an edge for the pair. Inserting an edge \<open>(1, 2)\<close> of weight 7 and then one of
  weight 9, by two edge descriptions or by two calls of \<^verbatim>\<open>new_edge\<close>, leaves the graph
  as it was: its one edge for \<open>(1, 2)\<close> has the weight 5 and no label, which are not the
  weight and label of the first of the two insertions.
\<close>

theorem stored_edge_outlives_insertions:
  "Graph_init {1, 2} [Tup3 1 2 (Num 5)] True = Inr one_edge \<and>
   edges one_edge = [\<lparr>e_u = 1, e_v = 2, e_label = PyNone, e_weight = Num 5\<rparr>] \<and>
   populate_edges one_edge [Tup4 1 2 (Num 7) (Str ''a''), Tup4 1 2 (Num 9) (Str ''b'')]
     = Inr one_edge \<and>
   new_edge one_edge 1 2 (Str ''a'') (Num 7) = Inr one_edge \<and>
   new_edge one_edge 1 2 (Str ''b'') (Num 9) = Inr one_edge"
  by (simp add: Graph_init_def one_edge_def new_edge_def set_add_def set_contains_def edge_eq_def
      Edge_init_def)

text \<open>
  Insertion into the edge collection, with the endpoints written out: an edge is stored
  already exactly when some stored edge has its two endpoints.
\<close>

lemma set_contains_endpoints:
  "set_contains s e \<longleftrightarrow> filter (\<lambda>x. e_u x = e_u e \<and> e_v x = e_v e) s \<noteq> []"
  unfolding set_contains_def list_ex_iff edge_eq_def filter_empty_conv by metis

lemma set_contains_set_add:
  "e_u e' = e_u e \<Longrightarrow> e_v e' = e_v e \<Longrightarrow> set_contains (set_add s e) e'"
  by (auto simp: set_add_def set_contains_def list_ex_iff edge_eq_def)

lemma set_contains_add_mono: "set_contains s e' \<Longrightarrow> set_contains (set_add s e) e'"
  by (auto simp: set_add_def set_contains_def list_ex_iff)

lemma set_add_idem: "set_contains s e \<Longrightarrow> set_add s e = s"
  by (simp add: set_add_def)

lemma filter_set_add_other:
  assumes "\<not> P e \<or> set_contains s e"
  shows "filter P (set_add s e) = filter P s"
  using assms by (auto simp: set_add_def)

lemma add_pair_fresh:
  fixes u v :: 'v and s :: "'v Edge list"
  assumes fresh: "filter (\<lambda>x. e_u x = u \<and> e_v x = v) s = []"
    and e: "e_u e = u" "e_v e = v" and m: "e_u m = v" "e_v m = u"
    and e2: "e_u e2 = u" "e_v e2 = v" and m2: "e_u m2 = v" "e_v m2 = u"
  shows "filter (\<lambda>x. e_u x = u \<and> e_v x = v) (set_add s e) = [e]"
    and "filter (\<lambda>x. e_u x = u \<and> e_v x = v) (set_add (set_add s e) m) = [e]"
    and "set_add (set_add s e) e2 = set_add s e"
    and "set_add (set_add (set_add (set_add s e) m) e2) m2 = set_add (set_add s e) m"
proof -
  have ne: "\<not> set_contains s e"
    using fresh e by (simp add: set_contains_endpoints)
  then have s1: "set_add s e = s @ [e]"
    by (simp add: set_add_def)
  show f1: "filter (\<lambda>x. e_u x = u \<and> e_v x = v) (set_add s e) = [e]"
    using fresh e by (simp add: s1)
  have "\<not> (e_u m = u \<and> e_v m = v) \<or> set_contains (set_add s e) m"
  proof (cases "e_u m = u \<and> e_v m = v")
    case True
    then have "set_contains (set_add s e) m"
      using e by (intro set_contains_set_add) simp_all
    then show ?thesis by simp
  next
    case False
    then show ?thesis by simp
  qed
  then show "filter (\<lambda>x. e_u x = u \<and> e_v x = v) (set_add (set_add s e) m) = [e]"
    using f1 by (simp add: filter_set_add_other)
  have c2: "set_contains (set_add s e) e2"
    using e e2 by (intro set_contains_set_add) simp_all
  then show "set_add (set_add s e) e2 = set_add s e"
    by (rule set_add_idem)
  have "set_contains (set_add (set_add s e) m) e2"
    using c2 by (rule set_contains_add_mono)
  moreover have "set_contains (set_add (set_add s e) m) m2"
    using m m2 by (intro set_contains_set_add) simp_all
  ultimately show "set_add (set_add (set_add (set_add s e) m) e2) m2 = set_add (set_add s e) m"
    by (simp add: set_add_idem)
qed

text \<open>
  Claim C6, as amended. For every graph with the vertices \<open>u\<close> and \<open>v\<close> whose edge collection
  holds no edge with the endpoints \<open>(u, v)\<close>: after two edges with these endpoints are
  inserted, whatever their weights and labels, the collection holds exactly one edge with
  the endpoints \<open>(u, v)\<close>, the one the first insertion stored, and the second insertion
  leaves the graph as the first left it. This holds for the two ways of inserting an edge:
  for two edge descriptions handled by \<^verbatim>\<open>_populate_edges\<close>, where the edge kept has the
  weight and the label of the first description, and for two calls of \<^verbatim>\<open>new_edge\<close>, where
  the edge kept is the edge object that the first call built.
\<close>

theorem first_writer_wins:
  assumes u: "u \<in> vertices g" and v: "v \<in> vertices g"
    and fresh: "filter (\<lambda>x. e_u x = u \<and> e_v x = v) (edges g) = []"
  shows "(\<exists>g1. populate_edges g [Tup4 u v w1 l1] = Inr g1 \<and>
            populate_edges g [Tup4 u v w1 l1, Tup4 u v w2 l2] = Inr g1 \<and>
            filter (\<lambda>x. e_u x = u \<and> e_v x = v) (edges g1)
              = [\<lparr>e_u = u, e_v = v, e_label = l1, e_weight = w1\<rparr>]) \<and>
         (\<exists>g1. new_edge g u v la1 wa1 = Inr g1 \<and>
            new_edge g1 u v la2 wa2 = Inr g1 \<and>
            filter (\<lambda>x. e_u x = u \<and> e_v x = v) (edges g1) = [Edge_init u v la1 wa1])"
proof (intro conjI)
  let ?e = "Edge_init u v w1 l1" and ?m = "Edge_init v u w1 l1"
  let ?e2 = "Edge_init u v w2 l2" and ?m2 = "Edge_init v u w2 l2"
  note ap = add_pair_fresh[OF fresh, of ?e ?m ?e2 ?m2, unfolded Edge_init_def, simplified,
      folded Edge_init_def]
  let ?g1 = "g\<lparr>edges := add_desc (directed g) (edges g) (Tup4 u v w1 l1)\<rparr>"
  have one: "populate_edges g [Tup4 u v w1 l1] = Inr ?g1"
    using u v by simp
  have noop: "add_desc (directed g) (edges ?g1) (Tup4 u v w2 l2) = edges ?g1"
    using ap by (simp add: Let_def)
  have two: "populate_edges g [Tup4 u v w1 l1, Tup4 u v w2 l2] = Inr ?g1"
    using u v noop by simp
  have f: "filter (\<lambda>x. e_u x = u \<and> e_v x = v) (edges ?g1)
      = [\<lparr>e_u = u, e_v = v, e_label = l1, e_weight = w1\<rparr>]"
    using ap by (simp add: Let_def Edge_init_def)
  from one two f show "\<exists>g1. populate_edges g [Tup4 u v w1 l1] = Inr g1 \<and>
            populate_edges g [Tup4 u v w1 l1, Tup4 u v w2 l2] = Inr g1 \<and>
            filter (\<lambda>x. e_u x = u \<and> e_v x = v) (edges g1)
              = [\<lparr>e_u = u, e_v = v, e_label = l1, e_weight = w1\<rparr>]"
    by blast
next
  let ?e = "Edge_init u v la1 wa1" and ?m = "Edge_init v u la1 wa1"
  let ?e2 = "Edge_init u v la2 wa2" and ?m2 = "Edge_init v u la2 wa2"
  note ap = add_pair_fresh[OF fresh, of ?e ?m ?e2 ?m2, unfolded Edge_init_def, simplified,
      folded Edge_init_def]
  let ?s = "if \<not> directed g then set_add (set_add (edges g) ?e) ?m else set_add (edges g) ?e"
  let ?g1 = "g\<lparr>edges := ?s\<rparr>"
  have one: "new_edge g u v la1 wa1 = Inr ?g1"
    using u by (simp add: new_edge_def Let_def)
  have two: "new_edge ?g1 u v la2 wa2 = Inr ?g1"
    using u ap by (simp add: new_edge_def Let_def)
  have f: "filter (\<lambda>x. e_u x = u \<and> e_v x = v) (edges ?g1) = [?e]"
    using ap by simp
  from one two f show "\<exists>g1. new_edge g u v la1 wa1 = Inr g1 \<and>
            new_edge g1 u v la2 wa2 = Inr g1 \<and>
            filter (\<lambda>x. e_u x = u \<and> e_v x = v) (edges g1) = [Edge_init u v la1 wa1]"
    by blast
qed


theorem first_writer_wins_witness:
  "(1::int) \<in> vertices path4 \<and> 3 \<in> vertices path4 \<and>
   filter (\<lambda>x. e_u x = 1 \<and> e_v x = 3) (edges path4) = [] \<and>
   (\<exists>g1. populate_edges path4 [Tup4 1 3 (Num 7) (Str ''a'')] = Inr g1 \<and>
      populate_edges path4 [Tup4 1 3 (Num 7) (Str ''a''), Tup4 1 3 (Num 9) (Str ''b'')] = Inr g1 \<and>
      filter (\<lambda>x. e_u x = 1 \<and> e_v x = 3) (edges g1)
        = [\<lparr>e_u = 1, e_v = 3, e_label = Str ''a'', e_weight = Num 7\<rparr>]) \<and>
   (\<exists>g1. new_edge path4 1 3 (Str ''a'') (Num 7) = Inr g1 \<and>
      new_edge g1 1 3 (Str ''b'') (Num 9) = Inr g1 \<and>
      filter (\<lambda>x. e_u x = 1 \<and> e_v x = 3) (edges g1) = [Edge_init 1 3 (Str ''a'') (Num 7)])"
proof -
  have a: "(1::int) \<in> vertices path4" "(3::int) \<in> vertices path4"
    by (simp_all add: path4_def)
  have b: "filter (\<lambda>x. e_u x = 1 \<and> e_v x = 3) (edges path4) = []"
    by (simp add: path4_def Edge_init_def)
  from first_writer_wins[OF a b, of "Num 7" "Str ''a''" "Num 9" "Str ''b''"
      "Str ''a''" "Num 7" "Str ''b''" "Num 9"] a b
  show ?thesis
    by blast
qed

text \<open>
  Claim C10, counterexample. On the graph that already holds \<open>(1, 2)\<close> with weight 5,
  \<^verbatim>\<open>new_edge(1, 2)\<close> with the default arguments changes nothing, and the weight of
  \<open>(1, 2)\<close> is then 5, not \<^verbatim>\<open>None\<close>.
\<close>

theorem stored_edge_keeps_its_weight:
  "Graph_init {1, 2} [Tup3 1 2 (Num 5)] True = Inr one_edge \<and>
   new_edge one_edge 1 2 PyNone (Num 0) = Inr one_edge \<and>
   edge_weight one_edge 1 2 = Inr (Num 5)"
  by (simp add: Graph_init_def one_edge_def set_add_def set_contains_def edge_eq_def Edge_init_def
      new_edge_def edge_weight_def are_neighbors_def get_edge_def Edge_init2_def)

lemma find_absent: "\<not> set_contains s (Edge_init2 a b) \<Longrightarrow> find (\<lambda>edge. e_u edge = a \<and> e_v edge = b) s = None"
  by (auto simp: set_contains_iff find_None_iff Edge_init2_def Edge_init_def)

lemma get_edge_fresh:
  assumes "\<not> set_contains s (Edge_init2 a b)" and "e_u e = a" and "e_v e = b"
  shows "get_edge (g\<lparr>edges := set_add (set_add s e) m\<rparr>) a b = Some e"
    and "get_edge (g\<lparr>edges := set_add s e\<rparr>) a b = Some e"
proof -
  have n: "\<not> set_contains s e"
    using assms by (simp add: set_contains_iff Edge_init2_def Edge_init_def)
  have f: "find (\<lambda>edge. e_u edge = a \<and> e_v edge = b) (s @ [e] @ t) = Some e" for t
    using find_absent[OF assms(1)] assms(2,3) by (induction s) (auto split: if_splits)
  have c: "set_contains (s @ [e] @ t) (Edge_init2 a b)" for t
    using assms(2,3) by (auto simp: set_contains_iff Edge_init2_def Edge_init_def)
  show "get_edge (g\<lparr>edges := set_add (set_add s e) m\<rparr>) a b = Some e"
    using n f[of "[]"] f[of "[m]"] c[of "[]"] c[of "[m]"] by (simp add: get_edge_def set_add_def)
  show "get_edge (g\<lparr>edges := set_add s e\<rparr>) a b = Some e"
    using n f[of "[]"] c[of "[]"] by (simp add: get_edge_def set_add_def)
qed

text \<open>
  Claim C10, as amended. For every graph with \<open>u\<close> and \<open>v\<close> among its vertices and no edge
  stored for the ordered pair \<open>(u, v)\<close>, \<^verbatim>\<open>new_edge(u, v, label, weight)\<close> returns, and the
  edge then stored for \<open>(u, v)\<close> has the label argument as its weight and the weight
  argument as its label, so that the weight of \<open>(u, v)\<close> is the label argument: \<^verbatim>\<open>None\<close>
  after a call with the default arguments.
\<close>

theorem new_edge_transposes:
  assumes "u \<in> vertices g" and "v \<in> vertices g" and "\<not> are_neighbors g u v"
  shows "\<exists>g'. new_edge g u v label weight = Inr g' \<and>
           get_edge g' u v = Some \<lparr>e_u = u, e_v = v, e_label = weight, e_weight = label\<rparr> \<and>
           edge_weight g' u v = Inr label"
proof -
  let ?e = "Edge_init u v label weight"
  have fresh: "\<not> set_contains (edges g) (Edge_init2 u v)"
    using assms(3) by (simp add: are_neighbors_def)
  have e: "e_u ?e = u" "e_v ?e = v" "?e = \<lparr>e_u = u, e_v = v, e_label = weight, e_weight = label\<rparr>"
    by (simp_all add: Edge_init_def)
  obtain g' where g': "new_edge g u v label weight = Inr g'"
    and ed: "g' = g\<lparr>edges := set_add (set_add (edges g) ?e) (Edge_init v u label weight)\<rparr>
           \<or> g' = g\<lparr>edges := set_add (edges g) ?e\<rparr>"
    using assms(1) by (auto simp: new_edge_def Let_def)
  from ed get_edge_fresh[OF fresh e(1,2)] have ge: "get_edge g' u v = Some ?e"
    by auto
  then have "are_neighbors g' u v"
    by (auto simp: get_edge_def are_neighbors_def split: if_splits)
  with ge have "edge_weight g' u v = Inr label"
    by (simp add: edge_weight_def Edge_init_def)
  with g' ge e(3) show ?thesis by auto
qed

theorem new_edge_transposes_witness:
  "(1::int) \<in> vertices two_vertices \<and> 2 \<in> vertices two_vertices \<and> \<not> are_neighbors two_vertices 1 2 \<and>
   (\<exists>g'. new_edge two_vertices 1 2 PyNone (Num 0) = Inr g' \<and>
      get_edge g' 1 2 = Some \<lparr>e_u = 1, e_v = 2, e_label = Num 0, e_weight = PyNone\<rparr> \<and>
      edge_weight g' 1 2 = Inr PyNone)"
proof -
  have a: "(1::int) \<in> vertices two_vertices" "(2::int) \<in> vertices two_vertices"
    "\<not> are_neighbors two_vertices 1 2"
    by (simp_all add: two_vertices_def are_neighbors_def set_contains_def)
  from new_edge_transposes[OF a, of PyNone "Num 0"] a show ?thesis by simp
qed

section \<open>Properties of the shortest paths\<close>

subsection \<open>The distance of the source\<close>

lemma get_edge_in_edges:
  "get_edge g a b = Some e \<Longrightarrow> e \<in> set (edges g)"
proof -
  assume a: "get_edge g a b = Some e"
  then have ne: "edges g \<noteq> []"
    by (auto simp: get_edge_def set_contains_def split: if_splits)
  show ?thesis
  proof (cases "find (\<lambda>edge. e_u edge = a \<and> e_v edge = b) (edges g)")
    case None
    with a ne show ?thesis by (auto simp: get_edge_def split: if_splits)
  next
    case (Some x)
    then have "x \<in> set (edges g)" by (auto simp: find_Some_iff)
    with a Some show ?thesis by (auto simp: get_edge_def split: if_splits)
  qed
qed

lemma edge_weight_ok:
  assumes "nonneg_weights g"
  shows "\<exists>w. edge_weight g a b = Inr w \<and> ok_dist w"
proof (cases "are_neighbors g a b")
  case False
  then show ?thesis by (simp add: edge_weight_def ok_dist_def)
next
  case True
  then obtain e where e: "get_edge g a b = Some e"
    by (cases "find (\<lambda>edge. e_u edge = a \<and> e_v edge = b) (edges g)")
       (auto simp: get_edge_def are_neighbors_def)
  from get_edge_in_edges[OF e] assms have "ok_dist (e_weight e)"
    by (auto simp: nonneg_weights_def list_all_iff ok_dist_def split: pyval.splits)
  with True e show ?thesis by (simp add: edge_weight_def)
qed

lemma py_add_ok: "ok_dist a \<Longrightarrow> ok_dist b \<Longrightarrow> \<exists>t. py_add a b = Inr t \<and> ok_dist t"
  by (cases a; cases b) (auto simp: ok_dist_def values_radd_def)

lemma py_gt_ok: "ok_dist a \<Longrightarrow> ok_dist b \<Longrightarrow> \<exists>r. py_gt a b = Inr r"
  by (cases a; cases b) (auto simp: ok_dist_def)

lemma py_gt_zero: "ok_dist b \<Longrightarrow> py_gt (Num 0) b = Inr r \<Longrightarrow> \<not> truthy r"
  by (cases b) (auto simp: ok_dist_def)

lemma dist_inv_get:
  "dist_inv V src d \<Longrightarrow> k \<in> V \<Longrightarrow> \<exists>x. dict_get d k = Inr x \<and> ok_dist x"
  by (cases "map_of d k") (auto simp: dist_inv_def dict_get_def map_of_eq_None_iff)

lemma relax_inv:
  assumes inv: "dist_inv V src d" and w: "nonneg_weights g" and c: "c \<in> V" and n: "n \<in> V"
  shows "\<exists>d' q'. relax g c n (d, q) = Inr (d', q') \<and> dist_inv V src d' \<and> set q' \<subseteq> set q \<union> V"
proof -
  from dist_inv_get[OF inv c] obtain dc where dc: "dict_get d c = Inr dc" "ok_dist dc" by auto
  from edge_weight_ok[OF w] obtain ew where ew: "edge_weight g c n = Inr ew" "ok_dist ew" by blast
  from py_add_ok[OF dc(2) ew(2)] obtain t where t: "py_add dc ew = Inr t" "ok_dist t" by auto
  from dist_inv_get[OF inv n] obtain dn where dn: "dict_get d n = Inr dn" "ok_dist dn" by auto
  from py_gt_ok[OF dn(2) t(2)] obtain r where r: "py_gt dn t = Inr r" by auto
  show ?thesis
  proof (cases "truthy r")
    case False
    then show ?thesis using dc ew t dn r inv by (simp add: relax_def)
  next
    case True
    have ne: "n \<noteq> src"
    proof
      assume "n = src"
      then have "dn = Num 0" using dn(1) inv by (simp add: dist_inv_def dict_get_def)
      with py_gt_zero[OF t(2)] r True show False by simp
    qed
    have "dist_inv V src (AList.update n t d)"
      using inv n t(2) ne by (auto simp: dist_inv_def AList.dom_update AList.update_conv')
    then show ?thesis using True dc ew t dn r n by (simp add: relax_def)
  qed
qed

lemma foldE_relax_inv:
  assumes w: "nonneg_weights g" and c: "c \<in> V"
  shows "dist_inv V src d \<Longrightarrow> set ns \<subseteq> V \<Longrightarrow> set q \<subseteq> V \<Longrightarrow>
    \<exists>d' q'. foldE (relax g c) ns (d, q) = Inr (d', q') \<and> dist_inv V src d' \<and> set q' \<subseteq> V"
proof (induction ns arbitrary: d q)
  case Nil
  then show ?case by simp
next
  case (Cons n ns)
  from Cons.prems have n: "n \<in> V" and ns: "set ns \<subseteq> V" by auto
  from relax_inv[OF Cons.prems(1) w c n, of q] obtain d1 q1
    where s: "relax g c n (d, q) = Inr (d1, q1)" "dist_inv V src d1" "set q1 \<subseteq> set q \<union> V"
    by blast
  with Cons.prems(3) have "set q1 \<subseteq> V" by auto
  from Cons.IH[OF s(2) ns this] s(1) show ?case by simp
qed

lemma dijkstra_loop_inv:
  "nonneg_weights g \<Longrightarrow> (\<And>c. set (iter (neighbors g c)) \<subseteq> neighbors g c) \<Longrightarrow>
   dist_inv (vertices g) src d \<Longrightarrow> set q \<subseteq> vertices g \<Longrightarrow>
    \<exists>d'. dijkstra_loop iter g q visited d = Inr d' \<and> dist_inv (vertices g) src d'"
proof (induction iter g q visited d rule: dijkstra_loop.induct)
  case (1 iter self visited distances)
  then show ?case by (simp add: dijkstra_loop.simps)
next
  case (2 iter self current q visited distances)
  note w = "2.prems"(1) and it = "2.prems"(2) and inv = "2.prems"(3) and qs = "2.prems"(4)
  show ?case
  proof (cases "current \<in> visited")
    case True
    with "2.IH"(1)[OF True w it inv] qs show ?thesis by (simp add: dijkstra_loop.simps)
  next
    case False
    have c: "current \<in> vertices self" using qs by simp
    have ns: "set (iter (neighbors self current)) \<subseteq> vertices self"
      using it[of current] by (auto simp: neighbors_def)
    from foldE_relax_inv[OF w c inv ns, of q] qs obtain d1 q1
      where f: "foldE (relax self current) (iter (neighbors self current)) (distances, q) = Inr (d1, q1)"
        and i1: "dist_inv (vertices self) src d1" and q1: "set q1 \<subseteq> vertices self"
      by auto
    from "2.IH"(2)[OF False f refl w it i1 q1] False f show ?thesis
      by (simp add: dijkstra_loop.simps)
  qed
qed

text \<open>
  Claim C9, counterexample. On the graph with the one vertex 1 and a loop of weight -1,
  \<^verbatim>\<open>dijkstra(1)\<close> gives the vertex 1 the distance -1.
\<close>

theorem dijkstra_negative_loop:
  "Graph_init {1} [Tup3 1 1 (Num (- 1))] True = Inr neg_loop \<and>
   dijkstra sorted_list_of_set neg_loop 1 = Inr [(1, Num (- 1))]"
  by code_simp

text \<open>
  Claim C9, as amended. For every graph with finitely many sortable vertices whose stored
  weights are non-negative numbers, every vertex \<open>v\<close> of it, and every order in which the
  neighbour sets are visited, \<^verbatim>\<open>dijkstra(v)\<close> returns a mapping that gives \<open>v\<close> the
  distance 0.
\<close>

theorem dijkstra_source_zero:
  assumes fin: "finite (vertices g)" and v: "v \<in> vertices g" and w: "nonneg_weights g"
    and it: "\<And>c. set (iter (neighbors g c)) \<subseteq> neighbors g c"
  shows "\<exists>d. dijkstra iter g v = Inr d \<and> map_of d v = Some (Num 0)"
proof -
  let ?vs = "sorted_list_of_set (vertices g)"
  let ?d0 = "AList.update v (Num 0) (map (\<lambda>x. (x, Val v_inf)) ?vs)"
  have vs: "set ?vs = vertices g" using fin by simp
  have "dist_inv (vertices g) v ?d0"
    using v vs by (auto simp: dist_inv_def AList.dom_update AList.update_conv' image_image
        ok_dist_def map_of_map_restrict restrict_map_def split: if_splits)
  from dijkstra_loop_inv[OF w it this, of "[v]" "{}"] v obtain d'
    where "dijkstra_loop iter g [v] {} ?d0 = Inr d'" "dist_inv (vertices g) v d'" by auto
  then show ?thesis using v vs by (auto simp: dijkstra_def dist_inv_def)
qed


theorem dijkstra_source_zero_witness:
  "finite (vertices triangle) \<and> 1 \<in> vertices triangle \<and> nonneg_weights triangle \<and>
   (\<forall>c. set (sorted_list_of_set (neighbors triangle c)) \<subseteq> neighbors triangle c) \<and>
   (\<exists>d. dijkstra sorted_list_of_set triangle 1 = Inr d \<and> map_of d 1 = Some (Num 0))"
proof -
  have a: "finite (vertices triangle)" "1 \<in> vertices triangle" "nonneg_weights triangle"
    by (simp_all add: triangle_def nonneg_weights_def Edge_init_def)
  have b: "set (sorted_list_of_set (neighbors triangle c)) \<subseteq> neighbors triangle c" for c
    using a(1) by (simp add: neighbors_def)
  from dijkstra_source_zero[OF a b] a b show ?thesis
    by blast
qed

subsection \<open>The two algorithms on one graph\<close>

lemma detour_init:
  "Graph_init {1, 2, 3, 4, 5}
     [Tup3 1 2 (Num 10), Tup3 1 3 (Num 1), Tup3 3 5 (Num 1), Tup3 5 2 (Num 1), Tup3 2 4 (Num 1)]
     True = Inr detour"
  by (simp add: Graph_init_def detour_def set_add_def set_contains_def edge_eq_def Edge_init_def)

lemma detour_vertices: "sorted_list_of_set (vertices detour) = [1, 2, 3, 4, 5]"
  by code_simp

lemma detour_fw_init:
  "foldE (fw_init_row detour [1, 2, 3, 4, 5]) [0, 1, 2, 3, 4]
     (map (\<lambda>v. map (\<lambda>v. Num 0) [1, 2, 3, 4, 5::int]) [1, 2, 3, 4, 5::int])
   = Inr [[Num 0, Num 10, Num 1, Val v_inf, Val v_inf],
          [Val v_inf, Num 0, Val v_inf, Num 1, Val v_inf],
          [Val v_inf, Val v_inf, Num 0, Val v_inf, Num 1],
          [Val v_inf, Val v_inf, Val v_inf, Num 0, Val v_inf],
          [Val v_inf, Num 1, Val v_inf, Val v_inf, Num 0]]"
  by code_simp

lemma detour_fw_0:
  "fw_step 5 0 [[Num 0, Num 10, Num 1, Val v_inf, Val v_inf],
          [Val v_inf, Num 0, Val v_inf, Num 1, Val v_inf],
          [Val v_inf, Val v_inf, Num 0, Val v_inf, Num 1],
          [Val v_inf, Val v_inf, Val v_inf, Num 0, Val v_inf],
          [Val v_inf, Num 1, Val v_inf, Val v_inf, Num 0]]
   = Inr [[Num 0, Num 10, Num 1, Val v_inf, Val v_inf],
          [Val v_inf, Num 0, Val v_inf, Num 1, Val v_inf],
          [Val v_inf, Val v_inf, Num 0, Val v_inf, Num 1],
          [Val v_inf, Val v_inf, Val v_inf, Num 0, Val v_inf],
          [Val v_inf, Num 1, Val v_inf, Val v_inf, Num 0]]"
  by code_simp

lemma detour_fw_1:
  "fw_step 5 1 [[Num 0, Num 10, Num 1, Val v_inf, Val v_inf],
          [Val v_inf, Num 0, Val v_inf, Num 1, Val v_inf],
          [Val v_inf, Val v_inf, Num 0, Val v_inf, Num 1],
          [Val v_inf, Val v_inf, Val v_inf, Num 0, Val v_inf],
          [Val v_inf, Num 1, Val v_inf, Val v_inf, Num 0]]
   = Inr [[Num 0, Num 10, Num 1, Num 11, Val v_inf],
          [Val v_inf, Num 0, Val v_inf, Num 1, Val v_inf],
          [Val v_inf, Val v_inf, Num 0, Val v_inf, Num 1],
          [Val v_inf, Val v_inf, Val v_inf, Num 0, Val v_inf],
          [Val v_inf, Num 1, Val v_inf, Num 2, Num 0]]"
  by code_simp

lemma detour_fw_2:
  "fw_step 5 2 [[Num 0, Num 10, Num 1, Num 11, Val v_inf],
          [Val v_inf, Num 0, Val v_inf, Num 1, Val v_inf],
          [Val v_inf, Val v_inf, Num 0, Val v_inf, Num 1],
          [Val v_inf, Val v_inf, Val v_inf, Num 0, Val v_inf],
          [Val v_inf, Num 1, Val v_inf, Num 2, Num 0]]
   = Inr [[Num 0, Num 10, Num 1, Num 11, Num 2],
          [Val v_inf, Num 0, Val v_inf, Num 1, Val v_inf],
          [Val v_inf, Val v_inf, Num 0, Val v_inf, Num 1],
          [Val v_inf, Val v_inf, Val v_inf, Num 0, Val v_inf],
          [Val v_inf, Num 1, Val v_inf, Num 2, Num 0]]"
  by code_simp

lemma detour_fw_3:
  "fw_step 5 3 [[Num 0, Num 10, Num 1, Num 11, Num 2],
          [Val v_inf, Num 0, Val v_inf, Num 1, Val v_inf],
          [Val v_inf, Val v_inf, Num 0, Val v_inf, Num 1],
          [Val v_inf, Val v_inf, Val v_inf, Num 0, Val v_inf],
          [Val v_inf, Num 1, Val v_inf, Num 2, Num 0]]
   = Inr [[Num 0, Num 10, Num 1, Num 11, Num 2],
          [Val v_inf, Num 0, Val v_inf, Num 1, Val v_inf],
          [Val v_inf, Val v_inf, Num 0, Val v_inf, Num 1],
          [Val v_inf, Val v_inf, Val v_inf, Num 0, Val v_inf],
          [Val v_inf, Num 1, Val v_inf, Num 2, Num 0]]"
  by code_simp

lemma detour_fw_4:
  "fw_step 5 4 [[Num 0, Num 10, Num 1, Num 11, Num 2],
          [Val v_inf, Num 0, Val v_inf, Num 1, Val v_inf],
          [Val v_inf, Val v_inf, Num 0, Val v_inf, Num 1],
          [Val v_inf, Val v_inf, Val v_inf, Num 0, Val v_inf],
          [Val v_inf, Num 1, Val v_inf, Num 2, Num 0]]
   = Inr [[Num 0, Num 3, Num 1, Num 4, Num 2],
          [Val v_inf, Num 0, Val v_inf, Num 1, Val v_inf],
          [Val v_inf, Num 2, Num 0, Num 3, Num 1],
          [Val v_inf, Val v_inf, Val v_inf, Num 0, Val v_inf],
          [Val v_inf, Num 1, Val v_inf, Num 2, Num 0]]"
  by code_simp

lemma upt_5: "[0..<5] = [0, 1, 2, 3, 4]"
  by code_simp

lemma detour_floyd_warshall:
  "floyd_warshall detour
   = Inr [[Num 0, Num 3, Num 1, Num 4, Num 2],
          [Val v_inf, Num 0, Val v_inf, Num 1, Val v_inf],
          [Val v_inf, Num 2, Num 0, Num 3, Num 1],
          [Val v_inf, Val v_inf, Val v_inf, Num 0, Val v_inf],
          [Val v_inf, Num 1, Val v_inf, Num 2, Num 0]]"
proof -
  have l: "length [1, 2, 3, 4, 5::int] = 5"
    by simp
  have m: "Matrix_init (map (\<lambda>v. map (\<lambda>v. Num 0) [1, 2, 3, 4, 5::int]) [1, 2, 3, 4, 5::int])
      = Inr (map (\<lambda>v. map (\<lambda>v. Num 0) [1, 2, 3, 4, 5::int]) [1, 2, 3, 4, 5::int])"
    by (simp add: Matrix_init_def)
  show ?thesis
    unfolding floyd_warshall_def Let_def detour_vertices l upt_5
    by (simp only: m bindE_Inr detour_fw_init)
       (simp only: foldE.simps bindE_Inr detour_fw_0 detour_fw_1 detour_fw_2 detour_fw_3
          detour_fw_4)
qed

text \<open>
  Claim C1. On the graph \<open>detour\<close>, whose weights are non-negative numbers, the two
  algorithms disagree. The row of \<^verbatim>\<open>floyd_warshall()\<close> for the vertex 1 is
  \<open>0, 3, 1, 4, 2\<close>; \<^verbatim>\<open>dijkstra(1)\<close> gives the vertex 4 the distance 11, in whichever
  of the two possible orders the neighbours 2 and 3 of the vertex 1 are visited. The queue
  is first-in first-out: the vertex 2 is taken from it, and its neighbour 4 relaxed, while
  2 still has the distance 10 of the direct edge, and 4 is not relaxed again when 2 gets
  the distance 3.
\<close>

theorem floyd_warshall_dijkstra_differ:
  "Graph_init {1, 2, 3, 4, 5}
     [Tup3 1 2 (Num 10), Tup3 1 3 (Num 1), Tup3 3 5 (Num 1), Tup3 5 2 (Num 1), Tup3 2 4 (Num 1)]
     True = Inr detour \<and>
   floyd_warshall detour
     = Inr [[Num 0, Num 3, Num 1, Num 4, Num 2],
            [Val v_inf, Num 0, Val v_inf, Num 1, Val v_inf],
            [Val v_inf, Num 2, Num 0, Num 3, Num 1],
            [Val v_inf, Val v_inf, Val v_inf, Num 0, Val v_inf],
            [Val v_inf, Num 1, Val v_inf, Num 2, Num 0]] \<and>
   dijkstra sorted_list_of_set detour 1
     = Inr [(1, Num 0), (2, Num 3), (3, Num 1), (4, Num 11), (5, Num 2)] \<and>
   dijkstra (rev \<circ> sorted_list_of_set) detour 1
     = Inr [(1, Num 0), (2, Num 3), (3, Num 1), (4, Num 11), (5, Num 2)]"
proof -
  have asc: "dijkstra sorted_list_of_set detour 1
      = Inr [(1, Num 0), (2, Num 3), (3, Num 1), (4, Num 11), (5, Num 2)]"
    by code_simp
  have desc: "dijkstra (rev \<circ> sorted_list_of_set) detour 1
      = Inr [(1, Num 0), (2, Num 3), (3, Num 1), (4, Num 11), (5, Num 2)]"
    by code_simp
  show ?thesis
    by (simp only: detour_init detour_floyd_warshall asc desc simp_thms)
qed

subsection \<open>The scenarios of the specification\<close>

lemma triangle_init:
  "Graph_init {1, 2, 3} [Tup3 1 2 (Num 1), Tup3 2 3 (Num 1), Tup3 1 3 (Num 1)] False
   = Inr triangle"
  by (simp add: Graph_init_def triangle_def set_add_def set_contains_def edge_eq_def
      Edge_init_def)

lemma path4_init:
  "Graph_init {1, 2, 3, 4} [Tup3 1 2 (Num 1), Tup3 2 3 (Num 1), Tup3 3 4 (Num 1)] False
   = Inr path4"
  by (simp add: Graph_init_def path4_def set_add_def set_contains_def edge_eq_def
      Edge_init_def)

text \<open>
  Property X2. On the undirected triangle with weights 1, \<^verbatim>\<open>dijkstra(1)\<close> is \<open>{1: 0, 2: 1, 3: 1}\<close>; on
  the undirected path \<open>1 - 2 - 3 - 4\<close> with weights 1 it is \<open>{1: 0, 2: 1, 3: 2, 4: 3}\<close>; and
  for two vertices with no edge \<^verbatim>\<open>floyd_warshall()\<close> has the positive infinity off the
  diagonal.
\<close>

theorem scenarios:
  "Graph_init {1, 2, 3} [Tup3 1 2 (Num 1), Tup3 2 3 (Num 1), Tup3 1 3 (Num 1)] False
     = Inr triangle \<and>
   dijkstra sorted_list_of_set triangle 1 = Inr [(1, Num 0), (2, Num 1), (3, Num 1)] \<and>
   Graph_init {1, 2, 3, 4} [Tup3 1 2 (Num 1), Tup3 2 3 (Num 1), Tup3 3 4 (Num 1)] False
     = Inr path4 \<and>
   dijkstra sorted_list_of_set path4 1 = Inr [(1, Num 0), (2, Num 1), (3, Num 2), (4, Num 3)] \<and>
   Graph_init {1, 2} [] False = Inr no_edges \<and>
   floyd_warshall no_edges = Inr [[Num 0, Val v_inf], [Val v_inf, Num 0]]"
proof -
  have t: "dijkstra sorted_list_of_set triangle 1 = Inr [(1, Num 0), (2, Num 1), (3, Num 1)]"
    by code_simp
  have p: "dijkstra sorted_list_of_set path4 1
      = Inr [(1, Num 0), (2, Num 1), (3, Num 2), (4, Num 3)]"
    by code_simp
  have n: "Graph_init {1, 2} [] False = Inr no_edges"
    by (simp add: Graph_init_def no_edges_def)
  have f: "floyd_warshall no_edges = Inr [[Num 0, Val v_inf], [Val v_inf, Num 0]]"
    by code_simp
  show ?thesis
    by (simp only: triangle_init path4_init t p n f simp_thms)
qed

end
